theory Spec2Isabelle
  imports Main "HOL-Library.Sublist" "HOL-Library.AList"
begin

section \<open>Strings as the TypeScript code uses them\<close>

text \<open>
  A document is a \<^typ>\<open>string\<close>: a list of code units, and every offset of the source
  (\<open>lineOffset\<close>, \<open>span.start\<close>, \<open>span.end\<close>) is an index into that list.  The
  model covers code units below 256, so the white space of \<open>String.prototype.trim\<close> and
  of the regular expression class \<open>\s\<close> is tab, line feed, vertical tab, form feed,
  carriage return, space and the no-break space.
\<close>

abbreviation NL :: char where
  "NL \<equiv> CHR 0x0A"

definition is_space :: "char \<Rightarrow> bool" where
  "is_space c \<longleftrightarrow> c = CHR 0x09 \<or> c = NL \<or> c = CHR 0x0B \<or> c = CHR 0x0C \<or> c = CHR 0x0D
     \<or> c = CHR '' '' \<or> c = CHR 0xA0"

text \<open>\<open>CHARS\<close> of \<open>utils/id.ts\<close>; the class \<open>[a-z0-9]\<close> is the same set of characters.\<close>

definition CHARS :: string where
  "CHARS = ''0123456789abcdefghijklmnopqrstuvwxyz''"

definition is_alnum :: "char \<Rightarrow> bool" where
  "is_alnum c \<longleftrightarrow> c \<in> set CHARS"

definition is_digit :: "char \<Rightarrow> bool" where
  "is_digit c \<longleftrightarrow> c \<in> set ''0123456789''"

definition trimStart :: "string \<Rightarrow> string" where
  "trimStart s = dropWhile is_space s"

definition trimEnd :: "string \<Rightarrow> string" where
  "trimEnd s = rev (dropWhile is_space (rev s))"

definition trim :: "string \<Rightarrow> string" where
  "trim s = trimEnd (trimStart s)"

text \<open>\<open>s.split("\n")\<close>: never empty, one more line than there are line feeds.\<close>

fun split_nl :: "string \<Rightarrow> string list" where
  "split_nl [] = [[]]"
| "split_nl (c # cs) =
     (if c = NL then [] # split_nl cs
      else (case split_nl cs of [] \<Rightarrow> [[c]] | l # ls \<Rightarrow> (c # l) # ls))"

text \<open>\<open>ls.join("\n")\<close>.\<close>

fun join_nl :: "string list \<Rightarrow> string" where
  "join_nl [] = []"
| "join_nl [l] = l"
| "join_nl (l # ls) = l @ NL # join_nl ls"

text \<open>
  \<open>s.substring(a, b)\<close> on non-negative arguments: both are clamped to the length, and
  they are swapped when \<open>a > b\<close>.  \<open>s.substring(a)\<close> is \<^term>\<open>drop a s\<close>.
\<close>

definition substring :: "string \<Rightarrow> nat \<Rightarrow> nat \<Rightarrow> string" where
  "substring s a b = (if a \<le> b then take (b - a) (drop a s) else take (a - b) (drop b s))"

definition startsWith :: "string \<Rightarrow> string \<Rightarrow> bool" where
  "startsWith s p \<longleftrightarrow> prefix p s"

definition endsWith :: "string \<Rightarrow> string \<Rightarrow> bool" where
  "endsWith s p \<longleftrightarrow> suffix p s"

section \<open>The outside world: random numbers, the clock, moment.js\<close>

text \<open>
  \<open>Math.random\<close> and \<open>Date.now\<close> are read from a world that is passed along: \<open>rand w k\<close>
  is the value of \<open>Math.floor(Math.random() * CHARS.length)\<close> at the \<open>k\<close>-th draw and
  \<open>clock w k\<close> the \<open>k\<close>-th reading of \<open>Date.now()\<close>; \<open>rpos\<close> and \<open>cpos\<close> count the draws
  and readings made so far.
\<close>

record world =
  rand :: "nat \<Rightarrow> nat"
  rpos :: nat
  clock :: "nat \<Rightarrow> int"
  cpos :: nat

text \<open>
  moment.js is a library outside the repository.  The two calls the code makes are
  parameters.  \<open>moment(s, f, true)\<close> reads the clock: the units that the format \<open>f\<close> does
  not give (the day, for the format \<open>HH:mm\<close>) are those of the current instant, and whether
  \<open>s\<close> is valid can depend on them.  So \<open>moment_parse M c s f\<close> is \<open>moment(s, f, true)\<close>
  called at the instant \<open>c\<close>: \<open>None\<close> when \<open>isValid()\<close> is false and the \<open>valueOf()\<close>
  otherwise.  \<open>moment_format M t f\<close> is \<open>moment(t).format(f)\<close>, which does not read the
  clock.  The time zone and the locale are part of \<open>M\<close>.
\<close>

record momentlib =
  moment_parse :: "int \<Rightarrow> string \<Rightarrow> string \<Rightarrow> int option"
  moment_format :: "int \<Rightarrow> string \<Rightarrow> string"

text \<open>\<open>now()\<close> of \<open>utils/time.ts\<close>.\<close>

definition now :: "world \<Rightarrow> int \<times> world" where
  "now w = (clock w (cpos w), w\<lparr>cpos := cpos w + 1\<rparr>)"

text \<open>
  \<open>moment(s, f, true)\<close> in a world: the library takes one reading of the clock
  (\<open>new Date(Date.now())\<close>) at every call.
\<close>

definition moment_strict :: "momentlib \<Rightarrow> world \<Rightarrow> string \<Rightarrow> string \<Rightarrow> int option \<times> world" where
  "moment_strict M w s f = (moment_parse M (clock w (cpos w)) s f, w\<lparr>cpos := cpos w + 1\<rparr>)"

section \<open>Block ids (\<open>utils/id.ts\<close>)\<close>

definition BLOCK_ID_PREFIX :: string where
  "BLOCK_ID_PREFIX = ''m-''"

fun randomString :: "world \<Rightarrow> nat \<Rightarrow> string \<times> world" where
  "randomString w 0 = ([], w)"
| "randomString w (Suc n) =
     (let c = CHARS ! (rand w (rpos w) mod length CHARS);
          (s, w') = randomString (w\<lparr>rpos := rpos w + 1\<rparr>) n
      in (c # s, w'))"

text \<open>\<open>n.toString(36)\<close> for an integer \<open>n\<close>.\<close>

function toString36_nat :: "nat \<Rightarrow> string" where
  "toString36_nat n =
     (if n < 36 then [CHARS ! n] else toString36_nat (n div 36) @ [CHARS ! (n mod 36)])"
  by pat_completeness auto
termination
  by (relation "measure (\<lambda>n. n)") auto

definition toString36 :: "int \<Rightarrow> string" where
  "toString36 t = (if t < 0 then CHR ''-'' # toString36_nat (nat (- t)) else toString36_nat (nat t))"

text \<open>
  The \<open>for\<close> loop of \<open>generateBlockId\<close> with \<open>k\<close> attempts left; \<open>None\<close> when every attempt
  drew an id of \<open>existingIds\<close>.
\<close>

fun generateBlockId_loop :: "nat \<Rightarrow> world \<Rightarrow> string set option \<Rightarrow> string option \<times> world" where
  "generateBlockId_loop 0 w existingIds = (None, w)"
| "generateBlockId_loop (Suc k) w existingIds =
     (let (s, w') = randomString w 6;
          i = BLOCK_ID_PREFIX @ s
      in if existingIds = None \<or> i \<notin> the existingIds then (Some i, w')
         else generateBlockId_loop k w' existingIds)"

definition generateBlockId :: "world \<Rightarrow> string set option \<Rightarrow> string \<times> world" where
  "generateBlockId w existingIds =
     (case generateBlockId_loop 100 w existingIds of
        (Some i, w') \<Rightarrow> (i, w')
      | (None, w') \<Rightarrow>
          (let (t, w1) = now w';
               (s, w2) = randomString w1 3
           in (BLOCK_ID_PREFIX @ toString36 t @ s, w2)))"

text \<open>
  The marker regular expressions.  \<open>/\^(m-[a-z0-9]+)\s*$/\<close> and \<open>/\s*\^(m-[a-z0-9]+)\s*$/\<close>
  match a string of the form \<open>pre ^m-id ws\<close> with \<open>id\<close> a non-empty run of \<open>[a-z0-9]\<close> and
  \<open>ws\<close> white space up to the end of the string (there is no \<open>m\<close> flag, so \<open>$\<close> is the end
  of the string).  At most one position can match, because the caret is neither white space
  nor in \<open>[a-z0-9]\<close>.  \<open>find_marker\<close> returns \<open>pre\<close> and the captured group \<open>m-id\<close>.
\<close>

definition find_marker :: "string \<Rightarrow> (string \<times> string) option" where
  "find_marker s =
     (let r = dropWhile is_space (rev s);
          idr = takeWhile is_alnum r;
          rest = dropWhile is_alnum r
      in if idr \<noteq> [] \<and> prefix ''-m^'' rest
         then Some (rev (drop 3 rest), ''m-'' @ rev idr)
         else None)"

definition extractBlockId :: "string \<Rightarrow> string option" where
  "extractBlockId line = map_option snd (find_marker line)"

text \<open>
  \<open>s.replace(/\s*\^m-[a-z0-9]+\s*$/, "")\<close>: the leftmost match starts at the white space
  that precedes the caret, so what is left is \<open>pre\<close> without its trailing white space.
\<close>

definition replace_marker :: "string \<Rightarrow> string" where
  "replace_marker s = (case find_marker s of None \<Rightarrow> s | Some (pre, i) \<Rightarrow> trimEnd pre)"

text \<open>\<open>/^\^(m-[a-z0-9]+)$/\<close> on a whole string; the captured group.\<close>

definition match_marker_line :: "string \<Rightarrow> string option" where
  "match_marker_line s =
     (if prefix ''^m-'' s \<and> drop 3 s \<noteq> [] \<and> list_all is_alnum (drop 3 s) then Some (drop 1 s)
      else None)"

text \<open>The \<open>while\<close> loops that pop trailing lines whose \<open>trim()\<close> is empty.\<close>

definition pop_blank_lines :: "string list \<Rightarrow> string list" where
  "pop_blank_lines ls = rev (dropWhile (\<lambda>l. trim l = []) (rev ls))"

record strip_result =
  content :: string
  blockId :: "string option"

definition stripBlockIdFromContent :: "string \<Rightarrow> strip_result" where
  "stripBlockIdFromContent c =
     (case find_marker c of
        Some (pre, i) \<Rightarrow> \<lparr>content = trim (replace_marker c), blockId = Some i\<rparr>
      | None \<Rightarrow>
          (let ls = split_nl c;
               lastLine = trim (last ls)
           in case match_marker_line lastLine of
                Some i \<Rightarrow> \<lparr>content = trim (join_nl (pop_blank_lines (butlast ls))), blockId = Some i\<rparr>
              | None \<Rightarrow> \<lparr>content = trim c, blockId = None\<rparr>))"

section \<open>Timestamps (\<open>utils/time.ts\<close>)\<close>

text \<open>
  \<open>format.replace(/\[.*?\]/g, "")\<close>: every bracket that is closed before the next line
  terminator is removed with what it encloses (\<open>.\<close> does not match a line terminator).
\<close>

fun find_close :: "string \<Rightarrow> string option" where
  "find_close [] = None"
| "find_close (c # cs) =
     (if c = CHR '']'' then Some cs
      else if c = NL \<or> c = CHR 0x0D then None
      else find_close cs)"

function strip_bracketed :: "string \<Rightarrow> string" where
  "strip_bracketed [] = []"
| "strip_bracketed (c # cs) =
     (if c = CHR ''['' then
        (case find_close cs of Some r \<Rightarrow> strip_bracketed r | None \<Rightarrow> c # strip_bracketed cs)
      else c # strip_bracketed cs)"
  by pat_completeness auto
termination
proof (relation "measure length")
  fix c :: char and cs r :: string
  assume "c = CHR 0x5B" and found: "find_close cs = Some r"
  have "find_close xs = Some ys \<Longrightarrow> length ys < length xs" for xs ys
    by (induction xs) (auto split: if_splits)
  from this [OF found]
  show "(r, c # cs) \<in> measure length" by simp
qed auto

definition formatLength :: "string \<Rightarrow> int" where
  "formatLength f = int (length (strip_bracketed f))"

text \<open>
  The \<open>for\<close> loop of \<open>extractTimestampPrefix\<close> at the length \<open>len\<close>.  \<open>len\<close> can be negative
  (a format shorter than two characters): \<open>substring\<close> then reads it as 0.  Every turn
  calls \<open>moment\<close>, so the world is passed along; the result is the timestamp, the remaining
  text and the world after the calls.
\<close>

function extractTimestampPrefix_loop ::
  "momentlib \<Rightarrow> world \<Rightarrow> string \<Rightarrow> string \<Rightarrow> int \<Rightarrow> int option \<times> string \<times> world" where
  "extractTimestampPrefix_loop M w txt f len =
     (if len \<ge> formatLength f - 2 then
        (case fst (moment_strict M w (trim (take (nat len) txt)) f) of
           Some t \<Rightarrow> (Some t, trimStart (drop (nat len) txt),
                      snd (moment_strict M w (trim (take (nat len) txt)) f))
         | None \<Rightarrow> extractTimestampPrefix_loop M
                     (snd (moment_strict M w (trim (take (nat len) txt)) f)) txt f (len - 1))
      else (None, txt, w))"
  by pat_completeness auto
termination
  by (relation "measure (\<lambda>(M, w, txt, f, len). nat (len - formatLength f + 3))") auto

declare extractTimestampPrefix_loop.simps [simp del]

definition extractTimestampPrefix ::
  "momentlib \<Rightarrow> world \<Rightarrow> string \<Rightarrow> string \<Rightarrow> int option \<times> string \<times> world" where
  "extractTimestampPrefix M w txt f =
     extractTimestampPrefix_loop M w txt f (min (formatLength f + 5) (int (length txt)))"

section \<open>The data model (\<open>types.ts\<close>)\<close>

text \<open>
  The interfaces of \<open>types.ts\<close> as records.  Three field names of the source cannot be
  field names here: \<open>id\<close> is \<open>entry_id\<close> in an entry and \<open>span_id\<close> in a span, \<open>start\<close> and
  \<open>end\<close> of a span are \<open>span_start\<close> and \<open>span_end\<close>, and \<open>context\<close> of a diagnostic is
  \<open>ctx\<close>.  A value of the frontmatter is a boolean, a number or a string.  A JavaScript
  number holds every integer up to \<open>2^53\<close>; for a greater one \<open>parseInt\<close> returns the
  double nearest to it, which the model does not compute: \<open>FmDouble s\<close> stands for the
  double nearest to the integer that the digits \<open>s\<close> denote.
\<close>

record MomentEntry =
  entry_id :: string
  createdAt :: int
  raw :: string
  rawWithPrefix :: string
  idMissing :: bool

record EntrySpan =
  span_id :: string
  span_start :: nat
  span_end :: nat

record parse_error =
  message :: string
  ctx :: string

datatype fm_value = FmBool bool | FmNumber nat | FmDouble string | FmString string

text \<open>
  \<open>spans\<close> is a JavaScript \<open>Map\<close>: \<open>set\<close> on a key that is present replaces its value
  where it stands, which is what \<^const>\<open>AList.update\<close> does; \<open>get\<close> is \<^const>\<open>map_of\<close>.
  \<open>archiveStartOffset\<close> is \<open>-1\<close> or an offset.
\<close>

record ParsedMomentsDoc =
  frontmatter :: "(string \<times> fm_value) list"
  entries :: "MomentEntry list"
  archiveEntries :: "MomentEntry list"
  errors :: "parse_error list"
  originalText :: string
  spans :: "(string \<times> EntrySpan) list"
  archiveStartOffset :: int

section \<open>The parser (\<open>storage/momentsFormat.ts\<close>)\<close>

definition ARCHIVE_SEPARATOR :: string where
  "ARCHIVE_SEPARATOR = ''***''"

definition ARCHIVE_HEADING :: string where
  "ARCHIVE_HEADING = ''## Archive''"

text \<open>\<open>LIST_ITEM_REGEX = /^- /\<close> and \<open>FRONTMATTER_REGEX = /^---\s*$/\<close>, as \<open>test\<close> reads them.\<close>

definition LIST_ITEM_REGEX :: "string \<Rightarrow> bool" where
  "LIST_ITEM_REGEX line \<longleftrightarrow> prefix ''- '' line"

definition FRONTMATTER_REGEX :: "string \<Rightarrow> bool" where
  "FRONTMATTER_REGEX line \<longleftrightarrow> prefix ''---'' line \<and> list_all is_space (drop 3 line)"

text \<open>The block under construction: \<open>currentEntry\<close> of \<open>parseMomentsDoc\<close>.\<close>

record raw_block =
  lines :: "string list"
  startOffset :: nat
  endOffset :: nat

text \<open>
  \<open>parseInt(value, 10)\<close> of a string of digits: the integer that the digits denote, up to
  \<open>2^53\<close>, and the double nearest to it above.
\<close>

definition parseInt10 :: "string \<Rightarrow> fm_value" where
  "parseInt10 s =
     (let n = foldl (\<lambda>n c. 10 * n + (of_char c - 48)) 0 s
      in if n \<le> 2 ^ 53 then FmNumber n else FmDouble s)"

definition indexOf_colon :: "string \<Rightarrow> nat option" where
  "indexOf_colon line =
     (if CHR '':'' \<in> set line then Some (length (takeWhile (\<lambda>c. c \<noteq> CHR '':'') line)) else None)"

text \<open>
  One line of the frontmatter.  \<open>result\<close> is an object literal, so \<open>result[key] = value\<close>
  with the key \<open>__proto__\<close> and a boolean, a number or a string as value sets nothing; every
  other key becomes a property of the object.
\<close>

definition parseFrontmatter_line :: "(string \<times> fm_value) list \<Rightarrow> string \<Rightarrow> (string \<times> fm_value) list" where
  "parseFrontmatter_line res line =
     (case indexOf_colon line of
        None \<Rightarrow> res
      | Some colonIndex \<Rightarrow>
          if colonIndex > 0 then
            (let k = trim (take colonIndex line);
                 v = trim (drop (colonIndex + 1) line)
             in if k = ''__proto__'' then res
                else AList.update k
                  (if v = ''true'' then FmBool True
                   else if v = ''false'' then FmBool False
                   else if v \<noteq> [] \<and> list_all is_digit v then parseInt10 v
                   else FmString v) res)
          else res)"

definition parseFrontmatter :: "string \<Rightarrow> (string \<times> fm_value) list" where
  "parseFrontmatter c = foldl parseFrontmatter_line [] (split_nl c)"

text \<open>
  \<open>finalizeEntry\<close>.  The source mutates \<open>result.spans\<close> and \<open>result.errors\<close>; the model
  takes the document and returns it updated, with the world after the calls of
  \<open>extractTimestampPrefix\<close>, \<open>generateBlockId\<close> and \<open>now\<close>, which the source makes in this
  order.
\<close>

definition finalizeEntry ::
  "momentlib \<Rightarrow> raw_block \<Rightarrow> string \<Rightarrow> ParsedMomentsDoc \<Rightarrow> world
     \<Rightarrow> MomentEntry option \<times> ParsedMomentsDoc \<times> world" where
  "finalizeEntry M rb timestampFormat d w =
     (if lines rb = [] then (None, d, w)
      else
        let lastLine = last (lines rb);
            extractedId = extractBlockId lastLine;
            contentLines =
              (case extractedId of
                 None \<Rightarrow> lines rb
               | Some x \<Rightarrow>
                   if trim lastLine = CHR ''^'' # x
                   then pop_blank_lines (butlast (lines rb))
                   else butlast (lines rb) @ [replace_marker lastLine]);
            rawWithPrefix0 = join_nl contentLines
        in if trim rawWithPrefix0 = [] then (None, d, w)
           else
             let stripped = stripBlockIdFromContent rawWithPrefix0;
                 blockId1 = (case extractedId of None \<Rightarrow> blockId stripped | Some x \<Rightarrow> Some x);
                 rawWithPrefix1 = (if content stripped \<noteq> [] then content stripped else rawWithPrefix0);
                 (timestamp, remainingText, w0) =
                   extractTimestampPrefix M w rawWithPrefix1 timestampFormat;
                 strippedRemaining = stripBlockIdFromContent remainingText;
                 cleanRaw =
                   (if content strippedRemaining \<noteq> [] then content strippedRemaining
                    else if remainingText \<noteq> [] then remainingText
                    else rawWithPrefix1);
                 (bid, w1) =
                   (case blockId1 of
                      None \<Rightarrow> generateBlockId w0 (Some (set (map fst (spans d))))
                    | Some x \<Rightarrow> (x, w0));
                 (created, w2) = (case timestamp of Some t \<Rightarrow> (t, w1) | None \<Rightarrow> now w1);
                 e = \<lparr>entry_id = bid, createdAt = created, raw = cleanRaw,
                      rawWithPrefix = rawWithPrefix1, idMissing = (blockId1 = None)\<rparr>;
                 d1 = d\<lparr>spans := AList.update bid
                         \<lparr>span_id = bid, span_start = startOffset rb, span_end = endOffset rb\<rparr>
                         (spans d)\<rparr>;
                 d2 = (if blockId1 = None
                       then d1\<lparr>errors := errors d1 @
                              [\<lparr>message = ''Entry missing block id, assigned: '' @ bid,
                                ctx = take 50 rawWithPrefix1\<rparr>]\<rparr>
                       else d1)
             in (Some e, d2, w2))"

text \<open>
  The variables of the loop in \<open>parseMomentsDoc\<close>, with the result under construction
  (\<open>result\<close>) and the world (\<open>wld\<close>).
\<close>

record parser_state =
  lineOffset :: nat
  inFrontmatter :: bool
  frontmatterStarted :: bool
  frontmatterContent :: string
  inArchive :: bool
  currentEntry :: "raw_block option"
  result :: ParsedMomentsDoc
  wld :: world

text \<open>
  \<open>if (entry) { if (inArchive) archiveEntries.push(entry) else entries.push(entry) }\<close>;
  at the archive separator the source pushes to \<open>entries\<close> whatever \<open>inArchive\<close> is.
\<close>

definition push_entry :: "bool \<Rightarrow> MomentEntry option \<Rightarrow> ParsedMomentsDoc \<Rightarrow> ParsedMomentsDoc" where
  "push_entry archived e d =
     (case e of
        None \<Rightarrow> d
      | Some x \<Rightarrow> if archived then d\<lparr>archiveEntries := archiveEntries d @ [x]\<rparr>
                  else d\<lparr>entries := entries d @ [x]\<rparr>)"

text \<open>Finalizing \<open>currentEntry\<close>, when there is one, and pushing what it yields.\<close>

definition finalize_current :: "momentlib \<Rightarrow> string \<Rightarrow> bool \<Rightarrow> parser_state \<Rightarrow> parser_state" where
  "finalize_current M timestampFormat archived st =
     (case currentEntry st of
        None \<Rightarrow> st
      | Some cur \<Rightarrow>
          (let (e, d, w) = finalizeEntry M cur timestampFormat (result st) (wld st)
           in st\<lparr>result := push_entry archived e d, wld := w\<rparr>))"

text \<open>One turn of the \<open>for\<close> loop over the lines.\<close>

definition process_line :: "momentlib \<Rightarrow> string \<Rightarrow> parser_state \<Rightarrow> string \<Rightarrow> parser_state" where
  "process_line M timestampFormat st line =
     (let lineStart = lineOffset st;
          lineEnd = lineOffset st + length line
      in
      if FRONTMATTER_REGEX line \<and> \<not> frontmatterStarted st then
        st\<lparr>frontmatterStarted := True, inFrontmatter := True, lineOffset := lineEnd + 1\<rparr>
      else if FRONTMATTER_REGEX line \<and> inFrontmatter st then
        st\<lparr>inFrontmatter := False,
           result := (result st)\<lparr>frontmatter := parseFrontmatter (frontmatterContent st)\<rparr>,
           lineOffset := lineEnd + 1\<rparr>
      else if inFrontmatter st then
        st\<lparr>frontmatterContent :=
             frontmatterContent st @ (if frontmatterContent st \<noteq> [] then [NL] else []) @ line,
           lineOffset := lineEnd + 1\<rparr>
      else if trim line = ARCHIVE_SEPARATOR then
        (let st1 = (finalize_current M timestampFormat False st)\<lparr>currentEntry := None\<rparr>
         in st1\<lparr>result := (result st1)\<lparr>archiveStartOffset := int lineStart\<rparr>,
                inArchive := True, lineOffset := lineEnd + 1\<rparr>)
      else if inArchive st \<and> trim line = ARCHIVE_HEADING then
        st\<lparr>lineOffset := lineEnd + 1\<rparr>
      else if LIST_ITEM_REGEX line then
        (finalize_current M timestampFormat (inArchive st) st)
          \<lparr>currentEntry := Some \<lparr>lines = [drop 2 line], startOffset = lineStart, endOffset = lineEnd\<rparr>,
           lineOffset := lineEnd + 1\<rparr>
      else
        (case currentEntry st of
           None \<Rightarrow> st\<lparr>lineOffset := lineEnd + 1\<rparr>
         | Some cur \<Rightarrow>
             if startsWith line ''  '' \<or> trim line = [] then
               st\<lparr>currentEntry :=
                    Some (cur\<lparr>lines := lines cur @ [if startsWith line ''  '' then drop 2 line else line],
                              endOffset := lineEnd\<rparr>),
                  lineOffset := lineEnd + 1\<rparr>
             else
               (finalize_current M timestampFormat (inArchive st) st)
                 \<lparr>currentEntry := None, lineOffset := lineEnd + 1\<rparr>))"

definition initial_state :: "world \<Rightarrow> string \<Rightarrow> parser_state" where
  "initial_state w txt =
     \<lparr>lineOffset = 0, inFrontmatter = False, frontmatterStarted = False, frontmatterContent = [],
      inArchive = False, currentEntry = None,
      result = \<lparr>frontmatter = [], entries = [], archiveEntries = [], errors = [],
                originalText = txt, spans = [], archiveStartOffset = - 1\<rparr>,
      wld = w\<rparr>"

text \<open>\<open>parseMomentsDoc\<close>: the loop over \<open>text.split("\n")\<close>, then the last entry.\<close>

definition parseMomentsDoc :: "momentlib \<Rightarrow> world \<Rightarrow> string \<Rightarrow> string \<Rightarrow> ParsedMomentsDoc \<times> world" where
  "parseMomentsDoc M w txt timestampFormat =
     (let st = foldl (process_line M timestampFormat) (initial_state w txt) (split_nl txt);
          st' = finalize_current M timestampFormat (inArchive st) st
      in (result st', wld st'))"

section \<open>The mutators (\<open>storage/momentsFormat.ts\<close>)\<close>

text \<open>\<open>createEntryBlock\<close>; \<open>blockId\<close> is the optional third argument.\<close>

definition createEntryBlock ::
  "momentlib \<Rightarrow> world \<Rightarrow> string \<Rightarrow> string \<Rightarrow> string option \<Rightarrow> string \<times> world" where
  "createEntryBlock M w c timestampFormat bid =
     (let (i, w1) = (case bid of Some b \<Rightarrow> (b, w) | None \<Rightarrow> generateBlockId w None);
          (t, w2) = now w1;
          timestamp = moment_format M t timestampFormat;
          ls = split_nl c;
          formattedFirstLine = timestamp @ '' '' @ hd ls
      in (join_nl ((formattedFirstLine # tl ls) @ [CHR ''^'' # i]), w2))"

definition formatEntryAsListItem :: "string \<Rightarrow> string" where
  "formatEntryAsListItem entryBlock =
     (case split_nl entryBlock of
        [] \<Rightarrow> []
      | l # ls \<Rightarrow> join_nl ((''- '' @ l) # map (\<lambda>x. ''  '' @ x) ls))"

text \<open>The loop of \<open>findFrontmatterEnd\<close>; \<open>-1\<close> when no second delimiter line is found.\<close>

fun findFrontmatterEnd_loop :: "bool \<Rightarrow> nat \<Rightarrow> string list \<Rightarrow> int" where
  "findFrontmatterEnd_loop inFm off [] = - 1"
| "findFrontmatterEnd_loop inFm off (line # ls) =
     (if FRONTMATTER_REGEX line then
        (if \<not> inFm then findFrontmatterEnd_loop True (off + length line + 1) ls
         else int (off + length line + 1))
      else findFrontmatterEnd_loop inFm (off + length line + 1) ls)"

definition findFrontmatterEnd :: "string \<Rightarrow> int" where
  "findFrontmatterEnd txt = findFrontmatterEnd_loop False 0 (split_nl txt)"

datatype position = Prepend | Append

definition insertEntry ::
  "momentlib \<Rightarrow> world \<Rightarrow> string \<Rightarrow> string \<Rightarrow> position \<Rightarrow> string \<Rightarrow> string \<times> world" where
  "insertEntry M w txt entryContent pos timestampFormat =
     (let (entryBlock, w1) = createEntryBlock M w entryContent timestampFormat None;
          formattedEntry = formatEntryAsListItem entryBlock;
          (parsed, w2) = parseMomentsDoc M w1 txt timestampFormat
      in
      (case pos of
         Prepend \<Rightarrow>
           (let frontmatterEnd = findFrontmatterEnd txt;
                insertPoint = (if frontmatterEnd \<ge> 0 then nat frontmatterEnd else 0);
                before_txt = take insertPoint txt;
                after_txt = drop insertPoint txt;
                needsNewlineBefore = (before_txt \<noteq> [] \<and> \<not> endsWith before_txt [NL, NL]);
                needsNewlineAfter = (after_txt \<noteq> [] \<and> \<not> startsWith after_txt [NL])
            in before_txt @ (if needsNewlineBefore then [NL] else []) @ formattedEntry
                 @ (if needsNewlineAfter then [NL] else []) @ after_txt)
       | Append \<Rightarrow>
           (if archiveStartOffset parsed \<ge> 0 then
              (let before_txt = take (nat (archiveStartOffset parsed)) txt;
                   after_txt = drop (nat (archiveStartOffset parsed)) txt
               in trimEnd before_txt @ [NL, NL] @ formattedEntry @ [NL, NL] @ after_txt)
            else trimEnd txt @ [NL, NL] @ formattedEntry @ [NL]),
       w2))"

text \<open>\<open>entries.find(e => e.id === span.id) ?? archiveEntries.find(e => e.id === span.id)\<close>.\<close>

definition find_entry :: "MomentEntry list \<Rightarrow> string \<Rightarrow> MomentEntry option" where
  "find_entry es i = List.find (\<lambda>e. entry_id e = i) es"

definition replaceEntrySpan ::
  "momentlib \<Rightarrow> world \<Rightarrow> string \<Rightarrow> EntrySpan \<Rightarrow> string \<Rightarrow> string \<Rightarrow> bool \<Rightarrow> string \<times> world" where
  "replaceEntrySpan M w txt sp newContent timestampFormat keepOriginalTimestamp =
     (let (parsed, w1) = parseMomentsDoc M w txt timestampFormat;
          existingEntry =
            (case find_entry (entries parsed) (span_id sp) of
               Some e \<Rightarrow> Some e
             | None \<Rightarrow> find_entry (archiveEntries parsed) (span_id sp));
          (entryBlock, w2) =
            (case (if keepOriginalTimestamp then existingEntry else None) of
               Some e \<Rightarrow>
                 (let timestamp = moment_format M (createdAt e) timestampFormat;
                      ls = split_nl newContent
                  in (join_nl (((timestamp @ '' '' @ hd ls) # tl ls) @ [CHR ''^'' # span_id sp]), w1))
             | None \<Rightarrow> createEntryBlock M w1 newContent timestampFormat (Some (span_id sp)));
          formattedEntry = formatEntryAsListItem entryBlock;
          before_txt = take (span_start sp) txt;
          after_txt = drop (span_end sp + 1) txt
      in (before_txt @ formattedEntry @ (if startsWith after_txt [NL] then [] else [NL]) @ after_txt, w2))"

definition deleteEntrySpan :: "string \<Rightarrow> EntrySpan \<Rightarrow> string" where
  "deleteEntrySpan txt sp =
     (let before_txt = take (span_start sp) txt;
          after_txt = drop (span_end sp + 1) txt
      in before_txt @ (if endsWith before_txt [NL, NL] \<and> startsWith after_txt [NL]
                       then drop 1 after_txt else after_txt))"

definition moveToArchive ::
  "momentlib \<Rightarrow> world \<Rightarrow> string \<Rightarrow> EntrySpan \<Rightarrow> string \<Rightarrow> string \<times> world" where
  "moveToArchive M w txt sp timestampFormat =
     (let (parsed, w1) = parseMomentsDoc M w txt timestampFormat
      in
      (case find_entry (entries parsed) (span_id sp) of
         None \<Rightarrow> (txt, w1)
       | Some e \<Rightarrow>
           (let entryBlock = substring txt (span_start sp) (span_end sp + 1);
                newText = deleteEntrySpan txt sp;
                newText1 =
                  (if archiveStartOffset parsed < 0
                   then trimEnd newText @ [NL, NL] @ ARCHIVE_SEPARATOR @ [NL] @ ARCHIVE_HEADING @ [NL, NL]
                   else newText)
            in (trimEnd newText1 @ [NL] @ entryBlock @ [NL], w1))))"

definition getEntryBlockText :: "string \<Rightarrow> EntrySpan \<Rightarrow> string" where
  "getEntryBlockText txt sp = substring txt (span_start sp) (span_end sp + 1)"

section \<open>Parameters for the worked examples\<close>

text \<open>
  A stand-in for moment.js that knows the format \<open>YYYY-MM-DD HH:mm\<close> and two instants
  (read in UTC): \<open>2026-01-02 09:15\<close> is 1767345300000 and \<open>2026-01-02 10:21\<close> is
  1767349260000.  The format gives every unit down to the minute, so the instant of the
  call plays no part.  The stand-in agrees with moment.js on every string and instant the
  examples below hand to it.
\<close>

definition demo_format :: string where
  "demo_format = ''YYYY-MM-DD HH:mm''"

definition demo_moment :: momentlib where
  "demo_moment =
     \<lparr>moment_parse = (\<lambda>c s f.
         if f = demo_format \<and> s = ''2026-01-02 09:15'' then Some 1767345300000
         else if f = demo_format \<and> s = ''2026-01-02 10:21'' then Some 1767349260000
         else None),
      moment_format = (\<lambda>t f.
         if t < 1767349260000 then ''2026-01-02 09:15'' else ''2026-01-02 10:21'')\<rparr>"

text \<open>
  A world whose clock stands at \<open>2026-01-02 10:21\<close> and whose \<open>k\<close>-th random draw is
  \<open>k mod 36\<close>: the first generated id is \<open>m-012345\<close>, the second \<open>m-6789ab\<close>.
\<close>

definition demo_world :: world where
  "demo_world = \<lparr>rand = (\<lambda>k. k mod 36), rpos = 0, clock = (\<lambda>k. 1767349260000), cpos = 0\<rparr>"

text \<open>The document of the specification's concrete scenario.\<close>

definition scenario_text :: string where
  "scenario_text = join_nl [''---'', ''moments-plugin: true'', ''---'', '''',
     ''- 2026-01-02 09:15 Hello'', ''  ^m-abc123'']"

text \<open>A document with nothing in it.\<close>

definition empty_doc :: ParsedMomentsDoc where
  "empty_doc = \<lparr>frontmatter = [], entries = [], archiveEntries = [], errors = [],
                originalText = [], spans = [], archiveStartOffset = - 1\<rparr>"


text \<open>
  A second world, an hour later and with other random draws, and a text with one entry
  without marker and timestamp and one entry with both.
\<close>

definition later_world :: world where
  "later_world = \<lparr>rand = (\<lambda>k. (k + 7) mod 36), rpos = 0, clock = (\<lambda>k. 1767352860000), cpos = 0\<rparr>"

definition two_entries_text :: string where
  "two_entries_text = join_nl [''- hello'', ''- 2026-01-02 09:15 x'', ''  ^m-abc123'']"

text \<open>A text of two one-line blocks.\<close>

definition two_blocks_text :: string where
  "two_blocks_text = join_nl [''- a ^m-aaa111'', ''- b ^m-bbb222'']"

text \<open>
  A stand-in for moment.js that knows the format \<open>HH:mm\<close> and the string \<open>09:15\<close>: the
  format gives no date, so the instant parsed is a quarter past nine on the day of the
  call (read in UTC; a day has 86400000 milliseconds).  The examples with this library
  only parse.  The world \<open>next_day_world\<close> is the world of the examples a day later.
\<close>

definition hm_moment :: momentlib where
  "hm_moment =
     \<lparr>moment_parse = (\<lambda>c s f.
         if f = ''HH:mm'' \<and> s = ''09:15'' then Some (c - c mod 86400000 + 33300000) else None),
      moment_format = (\<lambda>t f. [])\<rparr>"

definition next_day_world :: world where
  "next_day_world = \<lparr>rand = (\<lambda>k. k mod 36), rpos = 0, clock = (\<lambda>k. 1767435660000), cpos = 0\<rparr>"

text \<open>A world whose random source is stuck: every draw is 0, every candidate \<open>m-000000\<close>.\<close>

definition stuck_world :: world where
  "stuck_world = \<lparr>rand = (\<lambda>k. 0), rpos = 0, clock = (\<lambda>k. 1767349260000), cpos = 0\<rparr>"

section \<open>Notions used in the proofs\<close>

text \<open>
  Names for the intermediate values of \<open>finalizeEntry\<close>: the lines left when the marker of
  the last line is removed, their join, the test for an empty entry, the id found, the
  text after the second removal, and \<open>cleanRaw\<close> as a function of the remaining text and
  of that text.  \<open>finalizeEntry_unfold\<close> states \<open>finalizeEntry\<close> in these terms.
\<close>

definition fe_contentLines :: "raw_block \<Rightarrow> string list" where
  "fe_contentLines rb =
     (case extractBlockId (last (lines rb)) of
        None \<Rightarrow> lines rb
      | Some x \<Rightarrow>
          if trim (last (lines rb)) = CHR ''^'' # x
          then pop_blank_lines (butlast (lines rb))
          else butlast (lines rb) @ [replace_marker (last (lines rb))])"

definition fe_raw0 :: "raw_block \<Rightarrow> string" where
  "fe_raw0 rb = join_nl (fe_contentLines rb)"

definition fe_emits :: "raw_block \<Rightarrow> bool" where
  "fe_emits rb \<longleftrightarrow> lines rb \<noteq> [] \<and> trim (fe_raw0 rb) \<noteq> []"

definition fe_blockId :: "raw_block \<Rightarrow> string option" where
  "fe_blockId rb =
     (case extractBlockId (last (lines rb)) of
        None \<Rightarrow> blockId (stripBlockIdFromContent (fe_raw0 rb))
      | Some x \<Rightarrow> Some x)"

definition fe_rawWithPrefix :: "raw_block \<Rightarrow> string" where
  "fe_rawWithPrefix rb =
     (if content (stripBlockIdFromContent (fe_raw0 rb)) \<noteq> []
      then content (stripBlockIdFromContent (fe_raw0 rb)) else fe_raw0 rb)"

definition clean_raw :: "string \<Rightarrow> string \<Rightarrow> string" where
  "clean_raw rest rwp =
     (let c = content (stripBlockIdFromContent rest)
      in if c \<noteq> [] then c else if rest \<noteq> [] then rest else rwp)"

text \<open>The ids of all emitted entries, and the keys of \<open>spans\<close>.\<close>

definition all_ids :: "ParsedMomentsDoc \<Rightarrow> string set" where
  "all_ids d = entry_id ` (set (entries d) \<union> set (archiveEntries d))"

definition keys_ok :: "ParsedMomentsDoc \<Rightarrow> bool" where
  "keys_ok d \<longleftrightarrow> set (map fst (spans d)) = all_ids d \<and> distinct (map fst (spans d))"



text \<open>
  What holds of the ids while a text is scanned in a world with the random source and the
  clock of \<open>w\<close>: the keys of \<open>spans\<close> are the ids of the entries, and the generated ids are
  pairwise distinct.
\<close>

definition gen_distinct :: "ParsedMomentsDoc \<Rightarrow> bool" where
  "gen_distinct d \<longleftrightarrow> distinct (map entry_id (filter idMissing (entries d @ archiveEntries d)))"

definition same_source :: "world \<Rightarrow> world \<Rightarrow> bool" where
  "same_source w w' \<longleftrightarrow> rand w' = rand w \<and> clock w' = clock w"


definition entry_count :: "ParsedMomentsDoc \<Rightarrow> nat" where
  "entry_count d = length (entries d) + length (archiveEntries d)"

text \<open>
  The strict parse of the prefixes that \<open>extractTimestampPrefix\<close> tries on the text \<open>r\<close>
  does not depend on the instant of the call; and one of these prefixes parses.
\<close>

definition clock_independent :: "momentlib \<Rightarrow> string \<Rightarrow> string \<Rightarrow> bool" where
  "clock_independent M f r \<longleftrightarrow>
     (\<forall>c c' k. formatLength f - 2 \<le> k \<and> k \<le> min (formatLength f + 5) (int (length r)) \<longrightarrow>
        moment_parse M c (trim (take (nat k) r)) f = moment_parse M c' (trim (take (nat k) r)) f)"

definition timestamp_parses :: "momentlib \<Rightarrow> string \<Rightarrow> string \<Rightarrow> bool" where
  "timestamp_parses M f r \<longleftrightarrow>
     (\<exists>c k. formatLength f - 2 \<le> k \<and> k \<le> min (formatLength f + 5) (int (length r)) \<and>
        moment_parse M c (trim (take (nat k) r)) f \<noteq> None)"

text \<open>
  What two parses of one block agree on: \<open>rawWithPrefix\<close> and \<open>idMissing\<close> always, the id
  when the block carries a marker; \<open>raw\<close> when the parse of the tried prefixes does not
  depend on the instant of the call, and then \<open>createdAt\<close> as well if one of them parses.
\<close>

definition same_entry :: "momentlib \<Rightarrow> string \<Rightarrow> MomentEntry \<Rightarrow> MomentEntry \<Rightarrow> bool" where
  "same_entry M f e1 e2 \<longleftrightarrow>
     rawWithPrefix e1 = rawWithPrefix e2 \<and> idMissing e1 = idMissing e2 \<and>
     (\<not> idMissing e1 \<longrightarrow> entry_id e1 = entry_id e2) \<and>
     (clock_independent M f (rawWithPrefix e1) \<longrightarrow>
        raw e1 = raw e2 \<and>
        (timestamp_parses M f (rawWithPrefix e1) \<longrightarrow> createdAt e1 = createdAt e2))"

definition same_doc :: "momentlib \<Rightarrow> string \<Rightarrow> ParsedMomentsDoc \<Rightarrow> ParsedMomentsDoc \<Rightarrow> bool" where
  "same_doc M f d1 d2 \<longleftrightarrow>
     frontmatter d1 = frontmatter d2 \<and> archiveStartOffset d1 = archiveStartOffset d2 \<and>
     list_all2 (same_entry M f) (entries d1) (entries d2) \<and>
     list_all2 (same_entry M f) (archiveEntries d1) (archiveEntries d2)"

definition same_run :: "momentlib \<Rightarrow> string \<Rightarrow> parser_state \<Rightarrow> parser_state \<Rightarrow> bool" where
  "same_run M f s1 s2 \<longleftrightarrow>
     lineOffset s1 = lineOffset s2 \<and> inFrontmatter s1 = inFrontmatter s2 \<and>
     frontmatterStarted s1 = frontmatterStarted s2 \<and>
     frontmatterContent s1 = frontmatterContent s2 \<and> inArchive s1 = inArchive s2 \<and>
     currentEntry s1 = currentEntry s2 \<and> same_doc M f (result s1) (result s2)"

text \<open>
  \<open>offset_of pre\<close> is the offset at which the line after the lines \<open>pre\<close> starts: every
  line of \<open>pre\<close> takes its length and one line feed.
\<close>

definition offset_of :: "string list \<Rightarrow> nat" where
  "offset_of pre = sum_list (map (\<lambda>l. length l + 1) pre)"

text \<open>
  \<open>archiveStartOffset\<close>, after the lines \<open>pre\<close>: \<open>-1\<close>, or the offset at which a line of
  \<open>pre\<close> starts that is an archive separator.
\<close>

definition arch_ok :: "string list \<Rightarrow> parser_state \<Rightarrow> bool" where
  "arch_ok pre st \<longleftrightarrow>
     lineOffset st = offset_of pre \<and>
     (archiveStartOffset (result st) = - 1 \<or>
      (\<exists>p l q. pre = p @ l # q \<and> trim l = ARCHIVE_SEPARATOR \<and>
         archiveStartOffset (result st) = int (offset_of p)))"

text \<open>
  The lines of a block as the parser collects them from the source lines \<open>src\<close> that it
  adds to the block: the list marker is cut from the first line and the two spaces from an
  indented line.
\<close>

definition block_lines :: "string list \<Rightarrow> string list" where
  "block_lines src =
     (case src of
        [] \<Rightarrow> []
      | l # ls \<Rightarrow> drop 2 l # map (\<lambda>x. if startsWith x ''  '' then drop 2 x else x) ls)"

text \<open>
  The three flags of the scanner (\<open>frontmatterStarted\<close>, \<open>inFrontmatter\<close>, \<open>inArchive\<close>)
  depend on the lines read so far only: \<open>flags_step\<close> is what one line does to them in
  \<open>parseMomentsDoc\<close>, \<open>flags_after pre\<close> are the flags after the lines \<open>pre\<close>.
\<close>

record scan_flags =
  fl_started :: bool
  fl_inFm :: bool
  fl_inArchive :: bool

definition flags_step :: "scan_flags \<Rightarrow> string \<Rightarrow> scan_flags" where
  "flags_step fl line =
     (if FRONTMATTER_REGEX line \<and> \<not> fl_started fl then fl\<lparr>fl_started := True, fl_inFm := True\<rparr>
      else if FRONTMATTER_REGEX line \<and> fl_inFm fl then fl\<lparr>fl_inFm := False\<rparr>
      else if fl_inFm fl then fl
      else if trim line = ARCHIVE_SEPARATOR then fl\<lparr>fl_inArchive := True\<rparr>
      else fl)"

definition flags_after :: "string list \<Rightarrow> scan_flags" where
  "flags_after pre =
     foldl flags_step \<lparr>fl_started = False, fl_inFm = False, fl_inArchive = False\<rparr> pre"

text \<open>
  The lines that the scanner consumes (\<open>continue\<close>) before it looks at the block in
  progress: the two delimiters of the frontmatter and what they enclose, and, in the
  archive, a line that trims to the archive heading.  \<open>kept_lines fl src\<close> are the lines of
  \<open>src\<close> that are not consumed, when the scan of \<open>src\<close> starts with the flags \<open>fl\<close>.
\<close>

definition consumed :: "scan_flags \<Rightarrow> string \<Rightarrow> bool" where
  "consumed fl line \<longleftrightarrow>
     (FRONTMATTER_REGEX line \<and> (\<not> fl_started fl \<or> fl_inFm fl)) \<or> fl_inFm fl \<or>
     (fl_inArchive fl \<and> trim line = ARCHIVE_HEADING)"

fun kept_lines :: "scan_flags \<Rightarrow> string list \<Rightarrow> string list" where
  "kept_lines fl [] = []"
| "kept_lines fl (l # ls) =
     (if consumed fl l then kept_lines (flags_step fl l) ls
      else l # kept_lines (flags_step fl l) ls)"

text \<open>
  A block of the text and the entry made of it: the lines before the block, the source
  lines of the block, the list that the entry went to, and the entry.  \<open>loc_span\<close> is the
  span of the block: from the start of its first line to the end of its last line, under
  the id of the entry.  \<open>loc_block\<close> is the block as \<open>finalizeEntry\<close> receives it.
\<close>

record located =
  loc_before :: "string list"
  loc_lines :: "string list"
  loc_archived :: bool
  loc_entry :: MomentEntry

definition loc_span :: "located \<Rightarrow> EntrySpan" where
  "loc_span x =
     \<lparr>span_id = entry_id (loc_entry x), span_start = offset_of (loc_before x),
      span_end = offset_of (loc_before x) + length (join_nl (loc_lines x))\<rparr>"

definition loc_block :: "located \<Rightarrow> raw_block" where
  "loc_block x =
     \<lparr>lines = block_lines (kept_lines (flags_after (loc_before x)) (loc_lines x)),
      startOffset = offset_of (loc_before x),
      endOffset = offset_of (loc_before x) + length (join_nl (loc_lines x))\<rparr>"

definition loc_ok :: "momentlib \<Rightarrow> string \<Rightarrow> string list \<Rightarrow> located \<Rightarrow> bool" where
  "loc_ok M f ls x \<longleftrightarrow>
     (\<exists>q. ls = loc_before x @ loc_lines x @ q) \<and> loc_lines x \<noteq> [] \<and>
     LIST_ITEM_REGEX (hd (loc_lines x)) \<and>
     \<not> consumed (flags_after (loc_before x)) (hd (loc_lines x)) \<and>
     (\<exists>d0 w0. fst (finalizeEntry M (loc_block x) f d0 w0) = Some (loc_entry x)) \<and>
     (loc_archived x \<longrightarrow> fl_inArchive (flags_after (loc_before x)))"

text \<open>
  The blocks finalized so far, in the order of the text, account for the document: the
  two lists are their entries, and the span registered under an id is that of the last of
  them with this id.
\<close>

definition log_ok ::
  "momentlib \<Rightarrow> string \<Rightarrow> string list \<Rightarrow> ParsedMomentsDoc \<Rightarrow> located list \<Rightarrow> bool" where
  "log_ok M f ls d lg \<longleftrightarrow>
     entries d = map loc_entry (filter (\<lambda>x. \<not> loc_archived x) lg) \<and>
     archiveEntries d = map loc_entry (filter loc_archived lg) \<and>
     (\<forall>x \<in> set lg. loc_ok M f ls x) \<and>
     sorted_wrt (\<lambda>x y. span_end (loc_span x) < span_start (loc_span y)) lg \<and>
     (\<forall>k. map_of (spans d) k
        = map_option loc_span (find (\<lambda>x. entry_id (loc_entry x) = k) (rev lg)))"

text \<open>
  The block in progress, after the lines \<open>ls\<close>: it covers the lines \<open>src\<close>, which start at
  a list item; the lines \<open>q\<close> after it were all consumed.
\<close>

definition cur_ok :: "string list \<Rightarrow> raw_block \<Rightarrow> bool" where
  "cur_ok ls cur \<longleftrightarrow>
     (\<exists>p src q. ls = p @ src @ q \<and> src \<noteq> [] \<and> LIST_ITEM_REGEX (hd src) \<and>
        \<not> consumed (flags_after p) (hd src) \<and>
        cur = \<lparr>lines = block_lines (kept_lines (flags_after p) src),
               startOffset = offset_of p, endOffset = offset_of p + length (join_nl src)\<rparr> \<and>
        kept_lines (flags_after (p @ src)) q = [] \<and>
        fl_inArchive (flags_after ls) = fl_inArchive (flags_after p))"

definition scan_inv :: "momentlib \<Rightarrow> string \<Rightarrow> string list \<Rightarrow> parser_state \<Rightarrow> bool" where
  "scan_inv M f pre st \<longleftrightarrow>
     lineOffset st = offset_of pre \<and>
     frontmatterStarted st = fl_started (flags_after pre) \<and>
     inFrontmatter st = fl_inFm (flags_after pre) \<and>
     inArchive st = fl_inArchive (flags_after pre) \<and>
     (\<exists>lg. log_ok M f pre (result st) lg \<and>
        (\<forall>cur. currentEntry st = Some cur \<longrightarrow>
           cur_ok pre cur \<and> (\<forall>x \<in> set lg. span_end (loc_span x) < startOffset cur)))"

section \<open>Lines and offsets\<close>

lemma split_nl_not_Nil [simp]: "split_nl s \<noteq> []"
  by (induction s) (auto split: list.splits)

lemma join_nl_Cons: "join_nl (l # ls) = (if ls = [] then l else l @ NL # join_nl ls)"
  by (cases ls) auto

lemma join_split_nl [simp]: "join_nl (split_nl s) = s"
  by (induction s) (auto simp: join_nl_Cons split: list.splits)

lemma offset_of_simps [simp]:
  "offset_of [] = 0"
  "offset_of (l # ls) = length l + 1 + offset_of ls"
  "offset_of (xs @ ys) = offset_of xs + offset_of ys"
  by (simp_all add: offset_of_def)

lemma offset_of_eq_0 [simp]: "offset_of ls = 0 \<longleftrightarrow> ls = []"
  by (cases ls) simp_all

lemma offset_of_pos [simp]: "0 < offset_of ls \<longleftrightarrow> ls \<noteq> []"
  by (cases ls) simp_all

lemma length_join_nl: "ls \<noteq> [] \<Longrightarrow> length (join_nl ls) + 1 = offset_of ls"
  by (induction ls rule: join_nl.induct) simp_all

lemma join_nl_append:
  "p \<noteq> [] \<Longrightarrow> r \<noteq> [] \<Longrightarrow> join_nl (p @ r) = join_nl p @ NL # join_nl r"
  by (induction p rule: join_nl.induct) (simp_all add: join_nl_Cons)

lemma drop_offset_join_nl:
  "r \<noteq> [] \<Longrightarrow> drop (offset_of p) (join_nl (p @ r)) = join_nl r"
proof (cases "p = []")
  case False
  assume r: "r \<noteq> []"
  have "offset_of p = Suc (length (join_nl p))"
    using length_join_nl [OF False] by simp
  then show ?thesis
    using False r by (simp add: join_nl_append)
qed simp

lemma take_join_nl:
  "src \<noteq> [] \<Longrightarrow> take (length (join_nl src)) (join_nl (src @ q)) = join_nl src"
  by (cases "q = []") (simp_all add: join_nl_append)

lemma take_Suc_join_nl:
  "src \<noteq> [] \<Longrightarrow>
     take (length (join_nl src) + 1) (join_nl (src @ q)) = join_nl src @ (if q = [] then [] else [NL])"
  by (cases "q = []") (simp_all add: join_nl_append)

lemma substring_block:
  assumes "src \<noteq> []"
  shows "substring (join_nl (p @ src @ q)) (offset_of p) (offset_of p + length (join_nl src)) = join_nl src"
    and "substring (join_nl (p @ src @ q)) (offset_of p) (offset_of p + length (join_nl src) + 1)
           = join_nl src @ (if q = [] then [] else [NL])"
proof -
  have d: "drop (offset_of p) (join_nl (p @ src @ q)) = join_nl (src @ q)"
    using assms drop_offset_join_nl [of "src @ q" p] by simp
  show "substring (join_nl (p @ src @ q)) (offset_of p) (offset_of p + length (join_nl src)) = join_nl src"
    using assms by (simp add: substring_def d take_join_nl)
  show "substring (join_nl (p @ src @ q)) (offset_of p) (offset_of p + length (join_nl src) + 1)
           = join_nl src @ (if q = [] then [] else [NL])"
    using take_Suc_join_nl [OF assms, of q] by (simp add: substring_def d)
qed

lemma length_text:
  assumes "src \<noteq> []"
  shows "length (join_nl (p @ src @ q)) = offset_of p + length (join_nl src) + offset_of q"
proof -
  have "length (join_nl (p @ src @ q)) + 1 = offset_of p + offset_of src + offset_of q"
    using assms length_join_nl [of "p @ src @ q"] by simp
  moreover have "length (join_nl src) + 1 = offset_of src"
    using assms by (rule length_join_nl)
  ultimately show ?thesis by simp
qed

lemma block_lines_snoc:
  "src \<noteq> [] \<Longrightarrow>
     block_lines (src @ [l]) = block_lines src @ [if startsWith l ''  '' then drop 2 l else l]"
  by (cases src) (simp_all add: block_lines_def)

section \<open>The stages of \<open>finalizeEntry\<close>\<close>

lemma finalizeEntry_unfold:
  "finalizeEntry M rb f d w =
     (if \<not> fe_emits rb then (None, d, w)
      else
        let x = extractTimestampPrefix M w (fe_rawWithPrefix rb) f;
            (bid, w1) =
              (case fe_blockId rb of
                 None \<Rightarrow> generateBlockId (snd (snd x)) (Some (set (map fst (spans d))))
               | Some i \<Rightarrow> (i, snd (snd x)));
            (created, w2) = (case fst x of Some t \<Rightarrow> (t, w1) | None \<Rightarrow> now w1);
            e = \<lparr>entry_id = bid, createdAt = created,
                 raw = clean_raw (fst (snd x)) (fe_rawWithPrefix rb),
                 rawWithPrefix = fe_rawWithPrefix rb, idMissing = (fe_blockId rb = None)\<rparr>;
            d1 = d\<lparr>spans := AList.update bid
                    \<lparr>span_id = bid, span_start = startOffset rb, span_end = endOffset rb\<rparr> (spans d)\<rparr>;
            d2 = (if fe_blockId rb = None
                  then d1\<lparr>errors := errors d1 @
                         [\<lparr>message = ''Entry missing block id, assigned: '' @ bid,
                           ctx = take 50 (fe_rawWithPrefix rb)\<rparr>]\<rparr>
                  else d1)
        in (Some e, d2, w2))"
  unfolding finalizeEntry_def fe_emits_def fe_blockId_def fe_rawWithPrefix_def clean_raw_def
    fe_raw0_def fe_contentLines_def Let_def case_prod_beta
  by (simp split: option.split)

lemma finalizeEntry_fst_None: "fst (finalizeEntry M rb f d w) = None \<longleftrightarrow> \<not> fe_emits rb"
  by (simp add: finalizeEntry_unfold Let_def case_prod_beta)

lemma finalizeEntry_fst_Some:
  assumes "fst (finalizeEntry M rb f d w) = Some e"
  shows "fe_emits rb"
    and "rawWithPrefix e = fe_rawWithPrefix rb"
    and "raw e = clean_raw (fst (snd (extractTimestampPrefix M w (fe_rawWithPrefix rb) f)))
                   (fe_rawWithPrefix rb)"
    and "idMissing e = (fe_blockId rb = None)"
    and "entry_id e =
           (case fe_blockId rb of
              Some i \<Rightarrow> i
            | None \<Rightarrow> fst (generateBlockId
                           (snd (snd (extractTimestampPrefix M w (fe_rawWithPrefix rb) f)))
                           (Some (set (map fst (spans d))))))"
    and "createdAt e =
           (case fst (extractTimestampPrefix M w (fe_rawWithPrefix rb) f) of
              Some t \<Rightarrow> t
            | None \<Rightarrow>
                fst (now (if fe_blockId rb = None
                          then snd (generateBlockId
                                 (snd (snd (extractTimestampPrefix M w (fe_rawWithPrefix rb) f)))
                                 (Some (set (map fst (spans d)))))
                          else snd (snd (extractTimestampPrefix M w (fe_rawWithPrefix rb) f)))))"
  using assms
  by (auto simp: finalizeEntry_unfold Let_def case_prod_beta split: if_splits option.splits)

lemma finalizeEntry_doc:
  "entries (fst (snd (finalizeEntry M rb f d w))) = entries d"
  "archiveEntries (fst (snd (finalizeEntry M rb f d w))) = archiveEntries d"
  "frontmatter (fst (snd (finalizeEntry M rb f d w))) = frontmatter d"
  "originalText (fst (snd (finalizeEntry M rb f d w))) = originalText d"
  "archiveStartOffset (fst (snd (finalizeEntry M rb f d w))) = archiveStartOffset d"
  "spans (fst (snd (finalizeEntry M rb f d w))) =
     (case fst (finalizeEntry M rb f d w) of
        None \<Rightarrow> spans d
      | Some e \<Rightarrow> AList.update (entry_id e)
          \<lparr>span_id = entry_id e, span_start = startOffset rb, span_end = endOffset rb\<rparr> (spans d))"
  by (simp_all add: finalizeEntry_unfold Let_def case_prod_beta)

lemma finalize_current_fields [simp]:
  "lineOffset (finalize_current M f a st) = lineOffset st"
  "inFrontmatter (finalize_current M f a st) = inFrontmatter st"
  "frontmatterStarted (finalize_current M f a st) = frontmatterStarted st"
  "frontmatterContent (finalize_current M f a st) = frontmatterContent st"
  "inArchive (finalize_current M f a st) = inArchive st"
  "currentEntry (finalize_current M f a st) = currentEntry st"
  by (simp_all add: finalize_current_def case_prod_beta split: option.split)

lemma finalize_current_result:
  "result (finalize_current M f a st) =
     (case currentEntry st of
        None \<Rightarrow> result st
      | Some cur \<Rightarrow>
          push_entry a (fst (finalizeEntry M cur f (result st) (wld st)))
            (fst (snd (finalizeEntry M cur f (result st) (wld st)))))"
  by (simp add: finalize_current_def case_prod_beta split: option.split)


text \<open>
  The loop of \<open>extractTimestampPrefix\<close>, from the length \<open>len\<close> down: the call at the length
  \<open>k\<close> is the one after \<open>len - k\<close> others, each of which took one reading of the clock.
\<close>

lemma world_cpos_same [simp]: "w\<lparr>cpos := cpos w\<rparr> = (w :: world)"
  by simp

lemma extractTimestampPrefix_loop_None:
  "(\<And>k. formatLength f - 2 \<le> k \<Longrightarrow> k \<le> len \<Longrightarrow>
      moment_parse M (clock w (cpos w + nat (len - k))) (trim (take (nat k) s)) f = None)
   \<Longrightarrow> extractTimestampPrefix_loop M w s f len
         = (None, s, w\<lparr>cpos := cpos w + nat (len - formatLength f + 3)\<rparr>)"
proof (induction M w s f len rule: extractTimestampPrefix_loop.induct)
  case (1 M w s f len)
  show ?case
  proof (cases "len \<ge> formatLength f - 2")
    case True
    let ?w = "snd (moment_strict M w (trim (take (nat len) s)) f)"
    have p: "fst (moment_strict M w (trim (take (nat len) s)) f) = None"
      using "1.prems" [of len] True by (simp add: moment_strict_def)
    have w': "clock ?w = clock w" "cpos ?w = cpos w + 1"
      by (simp_all add: moment_strict_def)
    have "extractTimestampPrefix_loop M ?w s f (len - 1)
        = (None, s, ?w\<lparr>cpos := cpos ?w + nat (len - 1 - formatLength f + 3)\<rparr>)"
    proof (rule "1.IH" [OF True p])
      fix k :: int
      assume k: "formatLength f - 2 \<le> k" "k \<le> len - 1"
      then have sh: "Suc (cpos w + nat (len - 1 - k)) = cpos w + nat (len - k)" by simp
      show "moment_parse M (clock ?w (cpos ?w + nat (len - 1 - k))) (trim (take (nat k) s)) f = None"
        using "1.prems" [of k] k by (simp add: w' sh)
    qed
    moreover have "?w\<lparr>cpos := cpos ?w + nat (len - 1 - formatLength f + 3)\<rparr>
        = w\<lparr>cpos := cpos w + nat (len - formatLength f + 3)\<rparr>"
      using True by (simp add: moment_strict_def nat_diff_distrib' nat_add_distrib)
    ultimately show ?thesis
      using True p by (subst extractTimestampPrefix_loop.simps) simp
  next
    case False
    then show ?thesis by (subst extractTimestampPrefix_loop.simps) simp
  qed
qed

lemma extractTimestampPrefix_loop_Some:
  "formatLength f - 2 \<le> L \<Longrightarrow> L \<le> len \<Longrightarrow>
   moment_parse M (clock w (cpos w + nat (len - L))) (trim (take (nat L) s)) f = Some t \<Longrightarrow>
   (\<And>k. L < k \<Longrightarrow> k \<le> len \<Longrightarrow>
      moment_parse M (clock w (cpos w + nat (len - k))) (trim (take (nat k) s)) f = None)
   \<Longrightarrow> extractTimestampPrefix_loop M w s f len
         = (Some t, trimStart (drop (nat L) s), w\<lparr>cpos := cpos w + nat (len - L + 1)\<rparr>)"
proof (induction M w s f len rule: extractTimestampPrefix_loop.induct)
  case (1 M w s f len)
  have ge: "len \<ge> formatLength f - 2" using "1.prems" by simp
  show ?case
  proof (cases "len = L")
    case True
    then show ?thesis
      using ge "1.prems"(3) by (subst extractTimestampPrefix_loop.simps) (simp add: moment_strict_def)
  next
    case False
    then have lt: "L < len" using "1.prems"(2) by simp
    let ?w = "snd (moment_strict M w (trim (take (nat len) s)) f)"
    have p: "fst (moment_strict M w (trim (take (nat len) s)) f) = None"
      using "1.prems"(4) [of len] lt by (simp add: moment_strict_def)
    have w': "clock ?w = clock w" "cpos ?w = cpos w + 1"
      by (simp_all add: moment_strict_def)
    have shift: "Suc (cpos w + nat (len - 1 - k)) = cpos w + nat (len - k)" if "k \<le> len - 1" for k
      using that by simp
    have "extractTimestampPrefix_loop M ?w s f (len - 1)
        = (Some t, trimStart (drop (nat L) s), ?w\<lparr>cpos := cpos ?w + nat (len - 1 - L + 1)\<rparr>)"
    proof (rule "1.IH" [OF ge p "1.prems"(1)])
      show "L \<le> len - 1" using lt by simp
      show "moment_parse M (clock ?w (cpos ?w + nat (len - 1 - L))) (trim (take (nat L) s)) f = Some t"
        using "1.prems"(3) lt by (simp add: w' shift [of L])
      fix k :: int
      assume k: "L < k" "k \<le> len - 1"
      show "moment_parse M (clock ?w (cpos ?w + nat (len - 1 - k))) (trim (take (nat k) s)) f = None"
        using "1.prems"(4) [of k] k by (simp add: w' shift [of k])
    qed
    moreover have "?w\<lparr>cpos := cpos ?w + nat (len - 1 - L + 1)\<rparr> = w\<lparr>cpos := cpos w + nat (len - L + 1)\<rparr>"
      using lt by (simp add: moment_strict_def nat_diff_distrib' nat_add_distrib)
    ultimately show ?thesis
      using ge p by (subst extractTimestampPrefix_loop.simps) simp
  qed
qed

section \<open>Worked examples on the document of the specification\<close>

text \<open>
  C7: on the scenario of the specification, \<open>insertEntry\<close> with \<open>prepend\<close> puts one blank
  line between the frontmatter and the new block and none between the new block and the
  \<open>Hello\<close> entry: the line feed that ends the new marker line is the one that was the
  blank line of the document.  The \<open>append\<close> branch pads with a blank line on both sides.
\<close>

theorem insertEntry_prepend_scenario:
  "split_nl (fst (insertEntry demo_moment demo_world scenario_text ''World'' Prepend demo_format)) =
     [''---'', ''moments-plugin: true'', ''---'', '''',
      ''- 2026-01-02 10:21 World'', ''  ^m-012345'',
      ''- 2026-01-02 09:15 Hello'', ''  ^m-abc123''] \<and>
   split_nl (fst (insertEntry demo_moment demo_world scenario_text ''World'' Append demo_format)) =
     [''---'', ''moments-plugin: true'', ''---'', '''',
      ''- 2026-01-02 09:15 Hello'', ''  ^m-abc123'', '''',
      ''- 2026-01-02 10:21 World'', ''  ^m-012345'', '''']"
  by code_simp

text \<open>
  C6: a note whose second line is a horizontal rule \<open>***\<close>.  The rule is written as the
  continuation line \<open>  ***\<close>, which the parser reads as the archive separator
  (\<open>line.trim() === ARCHIVE_SEPARATOR\<close>): the new entry's \<open>raw\<close> is only \<open>note\<close>, the rest
  of the note is dropped, and the \<open>Hello\<close> entry that was active is now archived.
\<close>

theorem insertEntry_separator_in_content:
  "map raw (entries (fst (parseMomentsDoc demo_moment demo_world scenario_text demo_format))) = [''Hello''] \<and>
   archiveEntries (fst (parseMomentsDoc demo_moment demo_world scenario_text demo_format)) = [] \<and>
   split_nl (fst (insertEntry demo_moment demo_world scenario_text
                    (join_nl [''note'', ''***'', ''more'']) Prepend demo_format)) =
     [''---'', ''moments-plugin: true'', ''---'', '''',
      ''- 2026-01-02 10:21 note'', ''  ***'', ''  more'', ''  ^m-012345'',
      ''- 2026-01-02 09:15 Hello'', ''  ^m-abc123''] \<and>
   map raw (entries (fst (parseMomentsDoc demo_moment demo_world
       (fst (insertEntry demo_moment demo_world scenario_text
               (join_nl [''note'', ''***'', ''more'']) Prepend demo_format)) demo_format))) = [''note''] \<and>
   map raw (archiveEntries (fst (parseMomentsDoc demo_moment demo_world
       (fst (insertEntry demo_moment demo_world scenario_text
               (join_nl [''note'', ''***'', ''more'']) Prepend demo_format)) demo_format))) = [''Hello'']"
  by code_simp

text \<open>
  C8: an active entry written without a marker.  Its id \<open>m-012345\<close> was drawn at random by
  the parse that produced the span; the parse inside \<open>moveToArchive\<close> draws another id, does
  not find \<open>m-012345\<close> and returns the text unchanged, so nothing is archived.  Second, an
  entry with a continuation line \<open>## Archive\<close>: once moved, the parser skips that line as
  the archive heading and the entry's \<open>raw\<close> loses it.
\<close>

theorem moveToArchive_entry_without_marker:
  "map entry_id (entries (fst (parseMomentsDoc demo_moment demo_world ''- hello'' demo_format))) = [''m-012345''] \<and>
   map_of (spans (fst (parseMomentsDoc demo_moment demo_world ''- hello'' demo_format))) ''m-012345''
     = Some \<lparr>span_id = ''m-012345'', span_start = 0, span_end = 7\<rparr> \<and>
   fst (moveToArchive demo_moment (snd (parseMomentsDoc demo_moment demo_world ''- hello'' demo_format))
          ''- hello'' \<lparr>span_id = ''m-012345'', span_start = 0, span_end = 7\<rparr> demo_format) = ''- hello'' \<and>
   archiveEntries (fst (parseMomentsDoc demo_moment demo_world ''- hello'' demo_format)) = [] \<and>
   map raw (entries (fst (parseMomentsDoc demo_moment demo_world
       (join_nl [''- a'', ''  ## Archive'', ''  b'', ''  ^m-abc123'']) demo_format))) = [join_nl [''a'', ''## Archive'', ''b'']] \<and>
   map raw (archiveEntries (fst (parseMomentsDoc demo_moment demo_world
       (fst (moveToArchive demo_moment demo_world (join_nl [''- a'', ''  ## Archive'', ''  b'', ''  ^m-abc123''])
              \<lparr>span_id = ''m-abc123'', span_start = 0, span_end = 32\<rparr> demo_format)) demo_format)))
     = [join_nl [''a'', ''b'']]"
  by code_simp

text \<open>
  C10: a block that holds nothing but its marker, in a file that ends with a line feed.
  The last line of the block is the empty line, so the marker is not removed before the
  test for an empty entry; \<open>stripBlockIdFromContent\<close> then leaves the empty string and the
  code falls back to the text with the marker.  The entry is emitted, and its \<open>raw\<close> and
  \<open>rawWithPrefix\<close> are the marker followed by a line feed.  Without the final line feed
  the same block yields no entry.
\<close>

theorem finalizeEntry_marker_only_block:
  "map raw (entries (fst (parseMomentsDoc demo_moment demo_world (join_nl [''- ^m-abc123'', '''']) demo_format)))
     = [''^m-abc123'' @ [NL]] \<and>
   map rawWithPrefix (entries (fst (parseMomentsDoc demo_moment demo_world (join_nl [''- ^m-abc123'', '''']) demo_format)))
     = [''^m-abc123'' @ [NL]] \<and>
   trim (''^m-abc123'' @ [NL]) = ''^m-abc123'' \<and>
   content (stripBlockIdFromContent (''^m-abc123'' @ [NL])) = [] \<and>
   entries (fst (parseMomentsDoc demo_moment demo_world ''- ^m-abc123'' demo_format)) = []"
  by code_simp

section \<open>C3: what the mutators do with a span whose id is not found\<close>

text \<open>
  C3, as stated, fails: with a span whose id identifies no entry of the re-parsed text,
  \<open>deleteEntrySpan\<close> still removes the span's range (here the whole text) and
  \<open>replaceEntrySpan\<close> still rewrites it, stamping the current instant.
\<close>

theorem mutation_noop_counterexample:
  "find_entry (entries (fst (parseMomentsDoc demo_moment demo_world ''- a ^m-aaa111'' demo_format)))
      ''m-zzz999'' = None \<and>
   find_entry (archiveEntries (fst (parseMomentsDoc demo_moment demo_world ''- a ^m-aaa111'' demo_format)))
      ''m-zzz999'' = None \<and>
   deleteEntrySpan ''- a ^m-aaa111'' \<lparr>span_id = ''m-zzz999'', span_start = 0, span_end = 13\<rparr> = [] \<and>
   fst (replaceEntrySpan demo_moment demo_world ''- a ^m-aaa111''
         \<lparr>span_id = ''m-zzz999'', span_start = 0, span_end = 13\<rparr> ''b'' demo_format True)
     = join_nl [''- 2026-01-02 10:21 b'', ''  ^m-zzz999'', '''']"
  by code_simp

text \<open>
  C3, amended: the three mutators treat a span whose id is not found in three ways.
  \<open>moveToArchive\<close> returns the text unchanged whenever the span's id is not the id of an
  active entry of the re-parsed text (an id found only in the archive included).
  \<open>replaceEntrySpan\<close>, when the id is the id of no entry, active or archived, still
  replaces the range of the span: the result is the text before \<open>span.start\<close>, the new
  content as a list item, stamped with the reading of the clock made after the parse and
  closed by a marker line with the id of the span, a line feed unless one follows, and the
  text from \<open>span.end + 1\<close> on.  \<open>deleteEntrySpan\<close> does not look at the id at all.
\<close>

theorem span_id_not_found:
  "(find_entry (entries (fst (parseMomentsDoc M w txt f))) (span_id sp) = None \<longrightarrow>
      fst (moveToArchive M w txt sp f) = txt) \<and>
   (find_entry (entries (fst (parseMomentsDoc M w txt f))) (span_id sp) = None \<and>
    find_entry (archiveEntries (fst (parseMomentsDoc M w txt f))) (span_id sp) = None \<longrightarrow>
      fst (replaceEntrySpan M w txt sp c f keep) =
        take (span_start sp) txt
        @ formatEntryAsListItem
            (join_nl (((moment_format M (fst (now (snd (parseMomentsDoc M w txt f)))) f @ '' '' @ hd (split_nl c))
                       # tl (split_nl c)) @ [CHR ''^'' # span_id sp]))
        @ (if startsWith (drop (span_end sp + 1) txt) [NL] then [] else [NL])
        @ drop (span_end sp + 1) txt) \<and>
   deleteEntrySpan txt (sp\<lparr>span_id := i\<rparr>) = deleteEntrySpan txt sp"
  by (simp add: moveToArchive_def replaceEntrySpan_def createEntryBlock_def deleteEntrySpan_def
      case_prod_beta Let_def)

text \<open>
  C3, witness: the amended statement at a span whose id \<open>m-zzz999\<close> is not in the text
  \<open>- a ^m-aaa111\<close>: \<open>moveToArchive\<close> returns the text, and \<open>replaceEntrySpan\<close> writes the
  new block over the range 0 to 13.
\<close>

theorem span_id_not_found_witness:
  "find_entry (entries (fst (parseMomentsDoc demo_moment demo_world ''- a ^m-aaa111'' demo_format)))
      ''m-zzz999'' = None \<and>
   find_entry (archiveEntries (fst (parseMomentsDoc demo_moment demo_world ''- a ^m-aaa111'' demo_format)))
      ''m-zzz999'' = None \<and>
   fst (moveToArchive demo_moment demo_world ''- a ^m-aaa111''
         \<lparr>span_id = ''m-zzz999'', span_start = 0, span_end = 13\<rparr> demo_format) = ''- a ^m-aaa111'' \<and>
   fst (replaceEntrySpan demo_moment demo_world ''- a ^m-aaa111''
         \<lparr>span_id = ''m-zzz999'', span_start = 0, span_end = 13\<rparr> ''b'' demo_format True) =
     take 0 ''- a ^m-aaa111''
     @ formatEntryAsListItem
         (join_nl (((moment_format demo_moment
                       (fst (now (snd (parseMomentsDoc demo_moment demo_world ''- a ^m-aaa111'' demo_format))))
                       demo_format @ '' '' @ hd (split_nl ''b''))
                    # tl (split_nl ''b'')) @ [CHR ''^'' # ''m-zzz999'']))
     @ (if startsWith (drop (13 + 1) ''- a ^m-aaa111'') [NL] then [] else [NL])
     @ drop (13 + 1) ''- a ^m-aaa111''"
proof -
  have h: "find_entry (entries (fst (parseMomentsDoc demo_moment demo_world ''- a ^m-aaa111'' demo_format)))
       (span_id \<lparr>span_id = ''m-zzz999'', span_start = 0, span_end = 13\<rparr>) = None"
    by code_simp
  have h': "find_entry (archiveEntries (fst (parseMomentsDoc demo_moment demo_world ''- a ^m-aaa111'' demo_format)))
       (span_id \<lparr>span_id = ''m-zzz999'', span_start = 0, span_end = 13\<rparr>) = None"
    by code_simp
  from span_id_not_found [of demo_moment demo_world "''- a ^m-aaa111''" demo_format
      "\<lparr>span_id = ''m-zzz999'', span_start = 0, span_end = 13\<rparr>" "''b''" True] h h'
  show ?thesis by simp
qed

section \<open>C4: what the mutators leave untouched\<close>

lemma trimEnd_append_keep:
  "trimEnd b \<noteq> [] \<Longrightarrow> trimEnd (a @ b) = a @ trimEnd b"
  by (auto simp: trimEnd_def dropWhile_append split: if_splits)

lemma insertEntry_prepend_frame:
  "\<exists>X. fst (insertEntry M w txt c Prepend f)
         = take (nat (findFrontmatterEnd txt)) txt @ X @ drop (nat (findFrontmatterEnd txt)) txt"
  by (auto simp: insertEntry_def case_prod_beta Let_def)

lemma replaceEntrySpan_frame:
  "\<exists>X. fst (replaceEntrySpan M w txt sp c f k) = take (span_start sp) txt @ X @ drop (span_end sp + 1) txt"
  by (auto simp: replaceEntrySpan_def case_prod_beta Let_def)

lemma trimEnd_header:
  "trimEnd ([NL, NL] @ ARCHIVE_SEPARATOR @ [NL] @ ARCHIVE_HEADING @ [NL, NL])
     = [NL, NL] @ ARCHIVE_SEPARATOR @ [NL] @ ARCHIVE_HEADING"
  by code_simp

lemma archiveStartOffset_finalize_current [simp]:
  "archiveStartOffset (result (finalize_current M f a st)) = archiveStartOffset (result st)"
  by (simp add: finalize_current_def case_prod_beta push_entry_def finalizeEntry_doc
      split: option.split)

lemma arch_ok_process_line:
  assumes "arch_ok pre st"
  shows "arch_ok (pre @ [line]) (process_line M f st line)"
proof -
  have off: "lineOffset st = offset_of pre" using assms by (simp add: arch_ok_def)
  have old: "archiveStartOffset (result st) = - 1 \<or>
      (\<exists>p l q. pre @ [line] = p @ l # q \<and> trim l = ARCHIVE_SEPARATOR \<and>
         archiveStartOffset (result st) = int (offset_of p))"
    using assms unfolding arch_ok_def by (metis append_Cons append_assoc)
  have new: "trim line = ARCHIVE_SEPARATOR \<Longrightarrow>
      \<exists>p l q. pre @ [line] = p @ l # q \<and> trim l = ARCHIVE_SEPARATOR \<and> int (offset_of pre) = int (offset_of p)"
    by blast
  show ?thesis
    unfolding arch_ok_def process_line_def Let_def
    using old new by (simp add: off split: option.split)
qed

lemma arch_ok_foldl:
  "arch_ok pre st \<Longrightarrow> arch_ok (pre @ ls) (foldl (process_line M f) st ls)"
proof (induction ls arbitrary: pre st)
  case (Cons l ls)
  from Cons.IH [OF arch_ok_process_line [OF Cons.prems, of l]] show ?case by simp
qed simp

lemma archiveStartOffset_le:
  "nat (archiveStartOffset (fst (parseMomentsDoc M w s f))) \<le> length s"
proof -
  let ?st = "foldl (process_line M f) (initial_state w s) (split_nl s)"
  have "arch_ok [] (initial_state w s)"
    by (simp add: arch_ok_def initial_state_def)
  from arch_ok_foldl [OF this, of "split_nl s"]
  have a: "arch_ok (split_nl s) ?st" by simp
  have r: "archiveStartOffset (fst (parseMomentsDoc M w s f)) = archiveStartOffset (result ?st)"
    by (simp add: parseMomentsDoc_def Let_def)
  from a consider "archiveStartOffset (result ?st) = - 1"
    | p l q where "split_nl s = p @ l # q" "archiveStartOffset (result ?st) = int (offset_of p)"
    unfolding arch_ok_def by blast
  then show ?thesis
  proof cases
    case 1
    then show ?thesis by (simp add: r)
  next
    case 2
    have "length (join_nl (p @ l # q)) + 1 = offset_of (p @ l # q)"
      by (rule length_join_nl) simp
    then have "offset_of p \<le> length s"
      using join_split_nl [of s] 2(1) by simp
    then show ?thesis by (simp add: r 2(2))
  qed
qed

lemma insertEntry_append_exact:
  "fst (insertEntry M w txt c Append f) =
     (if archiveStartOffset (fst (parseMomentsDoc M (snd (createEntryBlock M w c f None)) txt f)) \<ge> 0
      then trimEnd (take (nat (archiveStartOffset
                     (fst (parseMomentsDoc M (snd (createEntryBlock M w c f None)) txt f)))) txt)
           @ [NL, NL] @ formatEntryAsListItem (fst (createEntryBlock M w c f None)) @ [NL, NL]
           @ drop (nat (archiveStartOffset
                     (fst (parseMomentsDoc M (snd (createEntryBlock M w c f None)) txt f)))) txt
      else trimEnd txt @ [NL, NL] @ formatEntryAsListItem (fst (createEntryBlock M w c f None)) @ [NL])"
  by (simp add: insertEntry_def case_prod_beta Let_def)

lemma deleteEntrySpan_exact:
  "deleteEntrySpan txt sp =
     take (span_start sp) txt
     @ (if endsWith (take (span_start sp) txt) [NL, NL] \<and> startsWith (drop (span_end sp + 1) txt) [NL]
        then drop (span_end sp + 2) txt else drop (span_end sp + 1) txt)"
  by (simp add: deleteEntrySpan_def Let_def)

lemma moveToArchive_exact:
  "fst (moveToArchive M w txt sp f) =
     (case find_entry (entries (fst (parseMomentsDoc M w txt f))) (span_id sp) of
        None \<Rightarrow> txt
      | Some e \<Rightarrow>
          trimEnd (deleteEntrySpan txt sp)
          @ (if archiveStartOffset (fst (parseMomentsDoc M w txt f)) < 0
             then [NL, NL] @ ARCHIVE_SEPARATOR @ [NL] @ ARCHIVE_HEADING else [])
          @ [NL] @ substring txt (span_start sp) (span_end sp + 1) @ [NL])"
proof -
  have "trimEnd (trimEnd (deleteEntrySpan txt sp) @ ([NL, NL] @ ARCHIVE_SEPARATOR @ [NL] @ ARCHIVE_HEADING @ [NL, NL]))
      = trimEnd (deleteEntrySpan txt sp) @ [NL, NL] @ ARCHIVE_SEPARATOR @ [NL] @ ARCHIVE_HEADING"
    by (subst trimEnd_append_keep) (simp_all only: trimEnd_header, simp)
  then show ?thesis
    by (auto simp: moveToArchive_def case_prod_beta Let_def split: option.splits)
qed

text \<open>
  C4, as stated, fails: appending to a document that ends with three line feeds leaves
  two of them before the new block, so the document is not a prefix of the result.
\<close>

theorem append_trims_counterexample:
  "fst (insertEntry demo_moment demo_world (join_nl [''- a ^m-aaa111'', '''', '''', '''']) ''c'' Append demo_format)
     = join_nl [''- a ^m-aaa111'', '''', ''- 2026-01-02 10:21 c'', ''  ^m-012345'', ''''] \<and>
   \<not> prefix (join_nl [''- a ^m-aaa111'', '''', '''', ''''])
       (fst (insertEntry demo_moment demo_world (join_nl [''- a ^m-aaa111'', '''', '''', '''']) ''c'' Append demo_format))"
  by code_simp

text \<open>
  C4, amended: every mutator keeps the text on both sides of the edited region as it is,
  apart from white space at the seam.  \<open>insertEntry\<close> with \<open>prepend\<close> inserts at the end
  of the frontmatter (at 0 when there is none) and \<open>replaceEntrySpan\<close> writes between
  \<open>span.start\<close> and \<open>span.end + 1\<close>; both keep the two sides exactly.  \<open>insertEntry\<close> with
  \<open>append\<close> inserts at \<open>archiveStartOffset\<close> of the parse, an offset of the text, when there
  is an archive and at the end of the text otherwise: the text before that point loses the
  white space that ends it, the new block follows after two line feeds, and the text from
  that point on follows unchanged after two more line feeds (a single line feed ends the
  result when there is no archive).  \<open>deleteEntrySpan\<close> removes the characters from
  \<open>span.start\<close> to \<open>span.end\<close> inclusive, and the next character as well exactly when the
  text before the span ends with two line feeds and that next character is a line feed.
  \<open>moveToArchive\<close> returns the text unchanged when the span's id is the id of no active
  entry; otherwise the result is what \<open>deleteEntrySpan\<close> leaves, without the white space
  that ends it, followed by the archive header when the parse found no archive, a line
  feed, the characters of the text from \<open>span.start\<close> to \<open>span.end\<close> inclusive, and a
  line feed.
\<close>

theorem mutators_frame:
  "(\<exists>X. fst (insertEntry M w txt c Prepend f)
          = take (nat (findFrontmatterEnd txt)) txt @ X @ drop (nat (findFrontmatterEnd txt)) txt) \<and>
   nat (archiveStartOffset (fst (parseMomentsDoc M (snd (createEntryBlock M w c f None)) txt f)))
     \<le> length txt \<and>
   fst (insertEntry M w txt c Append f) =
     (if archiveStartOffset (fst (parseMomentsDoc M (snd (createEntryBlock M w c f None)) txt f)) \<ge> 0
      then trimEnd (take (nat (archiveStartOffset
                     (fst (parseMomentsDoc M (snd (createEntryBlock M w c f None)) txt f)))) txt)
           @ [NL, NL] @ formatEntryAsListItem (fst (createEntryBlock M w c f None)) @ [NL, NL]
           @ drop (nat (archiveStartOffset
                     (fst (parseMomentsDoc M (snd (createEntryBlock M w c f None)) txt f)))) txt
      else trimEnd txt @ [NL, NL] @ formatEntryAsListItem (fst (createEntryBlock M w c f None)) @ [NL]) \<and>
   (\<exists>X. fst (replaceEntrySpan M w txt sp c f k)
          = take (span_start sp) txt @ X @ drop (span_end sp + 1) txt) \<and>
   deleteEntrySpan txt sp =
     take (span_start sp) txt
     @ (if endsWith (take (span_start sp) txt) [NL, NL] \<and> startsWith (drop (span_end sp + 1) txt) [NL]
        then drop (span_end sp + 2) txt else drop (span_end sp + 1) txt) \<and>
   fst (moveToArchive M w txt sp f) =
     (case find_entry (entries (fst (parseMomentsDoc M w txt f))) (span_id sp) of
        None \<Rightarrow> txt
      | Some e \<Rightarrow>
          trimEnd (deleteEntrySpan txt sp)
          @ (if archiveStartOffset (fst (parseMomentsDoc M w txt f)) < 0
             then [NL, NL] @ ARCHIVE_SEPARATOR @ [NL] @ ARCHIVE_HEADING else [])
          @ [NL] @ substring txt (span_start sp) (span_end sp + 1) @ [NL])"
  by (intro conjI insertEntry_prepend_frame archiveStartOffset_le insertEntry_append_exact
      replaceEntrySpan_frame deleteEntrySpan_exact moveToArchive_exact)

section \<open>C9: the timestamp prefix\<close>

text \<open>
  C9, as stated, fails: a block that holds a timestamp and nothing else.  The prefix of
  length 16 parses, nothing is left after it, and \<open>cleanRaw\<close> falls back to the whole
  text: the timestamp stays in \<open>raw\<close>.
\<close>

theorem timestamp_only_counterexample:
  "map raw (entries (fst (parseMomentsDoc demo_moment demo_world
       (join_nl [''- 2026-01-02 09:15'', ''  ^m-abc123'']) demo_format))) = [''2026-01-02 09:15''] \<and>
   map createdAt (entries (fst (parseMomentsDoc demo_moment demo_world
       (join_nl [''- 2026-01-02 09:15'', ''  ^m-abc123'']) demo_format))) = [1767345300000]"
  by code_simp

text \<open>
  C9, amended.  Let \<open>r\<close> be the entry's \<open>rawWithPrefix\<close>, \<open>n\<close> the length of the format
  without its bracketed literals and \<open>hi = min (n + 5) (length r)\<close>.  The lengths tried
  are \<open>hi\<close> down to \<open>n - 2\<close>, each with one call of \<open>moment\<close> in strict mode on the trimmed
  prefix of that length; the call at the length \<open>k\<close> comes after \<open>hi - k\<close> others and reads
  the clock as they did.  If \<open>L\<close> is the greatest length whose prefix parses, \<open>createdAt\<close>
  is the parsed instant; with \<open>rest\<close> the text of \<open>r\<close> from \<open>L\<close> on without its leading
  white space, \<open>raw\<close> is the \<open>content\<close> that \<open>stripBlockIdFromContent\<close> gives for \<open>rest\<close>
  (\<open>rest\<close> without a trailing marker, trimmed) when that is not empty; \<open>rest\<close> itself when
  it is not empty (so a \<open>rest\<close> that is only a marker stays, marker included); and all of
  \<open>r\<close>, prefix included, when \<open>rest\<close> is empty.  If no length parses, \<open>createdAt\<close> is the
  reading of the clock made after these calls and after the id was generated, and \<open>raw\<close>
  is the \<open>content\<close> that \<open>stripBlockIdFromContent\<close> gives for \<open>r\<close> when that is not empty
  and all of \<open>r\<close> otherwise (so an \<open>r\<close> that is only a marker stays as it is).
\<close>

theorem finalizeEntry_timestamp_prefix:
  assumes "fst (finalizeEntry M rb f d w) = Some e"
  shows
    "(formatLength f - 2 \<le> L \<and> L \<le> min (formatLength f + 5) (int (length (rawWithPrefix e))) \<and>
      moment_parse M
        (clock w (cpos w + nat (min (formatLength f + 5) (int (length (rawWithPrefix e))) - L)))
        (trim (take (nat L) (rawWithPrefix e))) f = Some t \<and>
      (\<forall>k. L < k \<and> k \<le> min (formatLength f + 5) (int (length (rawWithPrefix e)))
           \<longrightarrow> moment_parse M
                 (clock w (cpos w + nat (min (formatLength f + 5) (int (length (rawWithPrefix e))) - k)))
                 (trim (take (nat k) (rawWithPrefix e))) f = None)
      \<longrightarrow> createdAt e = t \<and>
          raw e = (let rest = trimStart (drop (nat L) (rawWithPrefix e));
                       c = content (stripBlockIdFromContent rest)
                   in if c \<noteq> [] then c else if rest \<noteq> [] then rest else rawWithPrefix e)) \<and>
     ((\<forall>k. formatLength f - 2 \<le> k \<and> k \<le> min (formatLength f + 5) (int (length (rawWithPrefix e)))
           \<longrightarrow> moment_parse M
                 (clock w (cpos w + nat (min (formatLength f + 5) (int (length (rawWithPrefix e))) - k)))
                 (trim (take (nat k) (rawWithPrefix e))) f = None)
      \<longrightarrow> createdAt e =
            (let w0 = w\<lparr>cpos := cpos w
                        + nat (min (formatLength f + 5) (int (length (rawWithPrefix e))) - formatLength f + 3)\<rparr>
             in fst (now (if idMissing e
                          then snd (generateBlockId w0 (Some (set (map fst (spans d)))))
                          else w0))) \<and>
          raw e = (let c = content (stripBlockIdFromContent (rawWithPrefix e))
                   in if c \<noteq> [] then c else rawWithPrefix e))"
proof -
  note fs = finalizeEntry_fst_Some [OF assms]
  let ?r = "rawWithPrefix e"
  let ?hi = "min (formatLength f + 5) (int (length ?r))"
  let ?w0 = "w\<lparr>cpos := cpos w + nat (?hi - formatLength f + 3)\<rparr>"
  have found: "createdAt e = t \<and>
          raw e = (let rest = trimStart (drop (nat L) ?r);
                       c = content (stripBlockIdFromContent rest)
                   in if c \<noteq> [] then c else if rest \<noteq> [] then rest else ?r)"
    if "formatLength f - 2 \<le> L" "L \<le> ?hi"
       "moment_parse M (clock w (cpos w + nat (?hi - L))) (trim (take (nat L) ?r)) f = Some t"
       "\<forall>k. L < k \<and> k \<le> ?hi \<longrightarrow>
          moment_parse M (clock w (cpos w + nat (?hi - k))) (trim (take (nat k) ?r)) f = None"
  proof -
    have "extractTimestampPrefix M w ?r f
        = (Some t, trimStart (drop (nat L) ?r), w\<lparr>cpos := cpos w + nat (?hi - L + 1)\<rparr>)"
      unfolding extractTimestampPrefix_def
      using that by (intro extractTimestampPrefix_loop_Some) auto
    then show ?thesis
      using fs(2,3,6) by (simp add: clean_raw_def Let_def)
  qed
  have missed: "createdAt e = (let w0 = ?w0
             in fst (now (if idMissing e
                          then snd (generateBlockId w0 (Some (set (map fst (spans d)))))
                          else w0))) \<and>
          raw e = (let c = content (stripBlockIdFromContent ?r) in if c \<noteq> [] then c else ?r)"
    if "\<forall>k. formatLength f - 2 \<le> k \<and> k \<le> ?hi \<longrightarrow>
          moment_parse M (clock w (cpos w + nat (?hi - k))) (trim (take (nat k) ?r)) f = None"
  proof -
    have "extractTimestampPrefix M w ?r f = (None, ?r, ?w0)"
      unfolding extractTimestampPrefix_def
      using that by (intro extractTimestampPrefix_loop_None) auto
    then show ?thesis
      using fs(2,3,4,6) by (simp add: clean_raw_def Let_def)
  qed
  show ?thesis using found missed by blast
qed

text \<open>
  C9, witness: the theorem at two blocks: \<open>2026-01-02 09:15 x\<close> with its marker line, where the
  length 18 fails and the length 17 succeeds, and \<open>a note without a timestamp\<close>, where
  the lengths 21 down to 14 all fail, so that the clock is read eight times before the id
  is generated.
\<close>

theorem finalizeEntry_timestamp_prefix_witness:
  "fst (finalizeEntry demo_moment
          \<lparr>lines = [''2026-01-02 09:15 x'', ''^m-abc123''], startOffset = 0, endOffset = 32\<rparr>
          demo_format empty_doc demo_world)
     = Some \<lparr>entry_id = ''m-abc123'', createdAt = 1767345300000, raw = ''x'',
             rawWithPrefix = ''2026-01-02 09:15 x'', idMissing = False\<rparr> \<and>
   formatLength demo_format = 16 \<and>
   moment_parse demo_moment (clock demo_world (cpos demo_world + nat (18 - 17)))
     (trim (take (nat 17) ''2026-01-02 09:15 x'')) demo_format = Some 1767345300000 \<and>
   moment_parse demo_moment (clock demo_world (cpos demo_world + nat (18 - 18)))
     (trim (take (nat 18) ''2026-01-02 09:15 x'')) demo_format = None \<and>
   trimStart (drop (nat 17) ''2026-01-02 09:15 x'') = ''x'' \<and>
   fst (finalizeEntry demo_moment
          \<lparr>lines = [''a note without a timestamp''], startOffset = 0, endOffset = 28\<rparr>
          demo_format empty_doc demo_world)
     = Some \<lparr>entry_id = ''m-012345'', createdAt = 1767349260000, raw = ''a note without a timestamp'',
             rawWithPrefix = ''a note without a timestamp'', idMissing = True\<rparr> \<and>
   fst (now (snd (generateBlockId (demo_world\<lparr>cpos := cpos demo_world + 8\<rparr>)
                    (Some (set (map fst (spans empty_doc))))))) = 1767349260000"
proof -
  let ?e = "\<lparr>entry_id = ''m-abc123'', createdAt = 1767345300000, raw = ''x'',
             rawWithPrefix = ''2026-01-02 09:15 x'', idMissing = False\<rparr>"
  let ?e' = "\<lparr>entry_id = ''m-012345'', createdAt = 1767349260000, raw = ''a note without a timestamp'',
             rawWithPrefix = ''a note without a timestamp'', idMissing = True\<rparr>"
  have a: "fst (finalizeEntry demo_moment
          \<lparr>lines = [''2026-01-02 09:15 x'', ''^m-abc123''], startOffset = 0, endOffset = 32\<rparr>
          demo_format empty_doc demo_world) = Some ?e"
    by code_simp
  have fl: "formatLength demo_format = 16" by code_simp
  have p17: "moment_parse demo_moment c (trim (take (nat 17) ''2026-01-02 09:15 x'')) demo_format
      = Some 1767345300000" for c
    by (simp add: demo_moment_def trim_def trimStart_def trimEnd_def is_space_def)
  have p18: "moment_parse demo_moment c (trim (take (nat 18) ''2026-01-02 09:15 x'')) demo_format = None" for c
    by (simp add: demo_moment_def trim_def trimStart_def trimEnd_def is_space_def)
  have r17: "trimStart (drop (nat 17) ''2026-01-02 09:15 x'') = ''x''"
    by code_simp
  have above: "\<forall>k. (17::int) < k \<and> k \<le> min (formatLength demo_format + 5) (int (length (rawWithPrefix ?e)))
           \<longrightarrow> moment_parse demo_moment
                 (clock demo_world (cpos demo_world
                    + nat (min (formatLength demo_format + 5) (int (length (rawWithPrefix ?e))) - k)))
                 (trim (take (nat k) (rawWithPrefix ?e))) demo_format = None"
  proof (intro allI impI)
    fix k :: int
    assume "17 < k \<and> k \<le> min (formatLength demo_format + 5) (int (length (rawWithPrefix ?e)))"
    then have "k = 18" by (simp add: fl)
    then show "moment_parse demo_moment
                 (clock demo_world (cpos demo_world
                    + nat (min (formatLength demo_format + 5) (int (length (rawWithPrefix ?e))) - k)))
                 (trim (take (nat k) (rawWithPrefix ?e))) demo_format = None"
      using p18 by simp
  qed
  have b: "fst (finalizeEntry demo_moment
          \<lparr>lines = [''a note without a timestamp''], startOffset = 0, endOffset = 28\<rparr>
          demo_format empty_doc demo_world) = Some ?e'"
    by code_simp
  have range: "list_all (\<lambda>k. moment_parse demo_moment 0
        (trim (take (nat k) ''a note without a timestamp'')) demo_format = None)
      [14, 15, 16, 17, 18, 19, 20, 21 :: int]"
    by code_simp
  have free: "moment_parse demo_moment c s g = moment_parse demo_moment 0 s g" for c s g
    by (simp add: demo_moment_def)
  have none: "\<forall>k. formatLength demo_format - 2 \<le> k \<and>
           k \<le> min (formatLength demo_format + 5) (int (length (rawWithPrefix ?e')))
           \<longrightarrow> moment_parse demo_moment
                 (clock demo_world (cpos demo_world
                    + nat (min (formatLength demo_format + 5) (int (length (rawWithPrefix ?e'))) - k)))
                 (trim (take (nat k) (rawWithPrefix ?e'))) demo_format = None"
  proof (intro allI impI)
    fix k :: int
    assume "formatLength demo_format - 2 \<le> k \<and>
           k \<le> min (formatLength demo_format + 5) (int (length (rawWithPrefix ?e')))"
    then have "k \<in> set [14, 15, 16, 17, 18, 19, 20, 21 :: int]"
      by (simp add: fl; arith)
    with range have "moment_parse demo_moment 0
        (trim (take (nat k) ''a note without a timestamp'')) demo_format = None"
      unfolding list_all_iff by blast
    then show "moment_parse demo_moment
                 (clock demo_world (cpos demo_world
                    + nat (min (formatLength demo_format + 5) (int (length (rawWithPrefix ?e'))) - k)))
                 (trim (take (nat k) (rawWithPrefix ?e'))) demo_format = None"
      by (subst free) simp
  qed
  from finalizeEntry_timestamp_prefix [OF a, of 17 1767345300000] fl p17 above
  have c1: "createdAt ?e = 1767345300000 \<and> raw ?e = ''x''" by simp
  from finalizeEntry_timestamp_prefix [OF b, of 0 0] none
  have c2: "createdAt ?e' = fst (now (snd (generateBlockId (demo_world\<lparr>cpos := cpos demo_world + 8\<rparr>)
                    (Some (set (map fst (spans empty_doc)))))))"
    by (simp add: fl Let_def)
  from a fl p17 p18 r17 b c1 c2 show ?thesis by simp
qed

section \<open>C5: parsing the same text twice\<close>

lemma extractTimestampPrefix_loop_independent:
  "(\<And>c c' k. formatLength f - 2 \<le> k \<Longrightarrow> k \<le> len \<Longrightarrow>
      moment_parse M c (trim (take (nat k) s)) f = moment_parse M c' (trim (take (nat k) s)) f)
   \<Longrightarrow> fst (extractTimestampPrefix_loop M w1 s f len) = fst (extractTimestampPrefix_loop M w2 s f len) \<and>
       fst (snd (extractTimestampPrefix_loop M w1 s f len))
         = fst (snd (extractTimestampPrefix_loop M w2 s f len))"
proof (induction M w1 s f len arbitrary: w2 rule: extractTimestampPrefix_loop.induct)
  case (1 M w1 s f len)
  show ?case
  proof (cases "len \<ge> formatLength f - 2")
    case True
    let ?x = "trim (take (nat len) s)"
    have same: "fst (moment_strict M w2 ?x f) = fst (moment_strict M w1 ?x f)"
      using "1.prems" [of len] True by (simp add: moment_strict_def)
    show ?thesis
    proof (cases "fst (moment_strict M w1 ?x f)")
      case None
      have ih: "fst (extractTimestampPrefix_loop M (snd (moment_strict M w1 ?x f)) s f (len - 1))
            = fst (extractTimestampPrefix_loop M (snd (moment_strict M w2 ?x f)) s f (len - 1)) \<and>
          fst (snd (extractTimestampPrefix_loop M (snd (moment_strict M w1 ?x f)) s f (len - 1)))
            = fst (snd (extractTimestampPrefix_loop M (snd (moment_strict M w2 ?x f)) s f (len - 1)))"
        using "1.prems" by (intro "1.IH" [OF True None]) simp
      have u1: "extractTimestampPrefix_loop M w1 s f len
          = extractTimestampPrefix_loop M (snd (moment_strict M w1 ?x f)) s f (len - 1)"
        using True None by (subst extractTimestampPrefix_loop.simps) simp
      have u2: "extractTimestampPrefix_loop M w2 s f len
          = extractTimestampPrefix_loop M (snd (moment_strict M w2 ?x f)) s f (len - 1)"
        using True None same by (subst extractTimestampPrefix_loop.simps) simp
      show ?thesis unfolding u1 u2 by (rule ih)
    next
      case (Some t)
      have u1: "extractTimestampPrefix_loop M w1 s f len
          = (Some t, trimStart (drop (nat len) s), snd (moment_strict M w1 ?x f))"
        using True Some by (subst extractTimestampPrefix_loop.simps) simp
      have u2: "extractTimestampPrefix_loop M w2 s f len
          = (Some t, trimStart (drop (nat len) s), snd (moment_strict M w2 ?x f))"
        using True Some same by (subst extractTimestampPrefix_loop.simps) simp
      show ?thesis unfolding u1 u2 by simp
    qed
  next
    case False
    have u1: "extractTimestampPrefix_loop M w1 s f len = (None, s, w1)"
      using False by (subst extractTimestampPrefix_loop.simps) simp
    have u2: "extractTimestampPrefix_loop M w2 s f len = (None, s, w2)"
      using False by (subst extractTimestampPrefix_loop.simps) simp
    show ?thesis unfolding u1 u2 by simp
  qed
qed

lemma extractTimestampPrefix_loop_failed:
  "fst (extractTimestampPrefix_loop M w s f len) = None \<Longrightarrow>
   formatLength f - 2 \<le> k \<Longrightarrow> k \<le> len \<Longrightarrow>
     moment_parse M (clock w (cpos w + nat (len - k))) (trim (take (nat k) s)) f = None"
proof (induction M w s f len rule: extractTimestampPrefix_loop.induct)
  case (1 M w s f len)
  have ge: "len \<ge> formatLength f - 2" using "1.prems" by simp
  let ?x = "trim (take (nat len) s)"
  let ?w = "snd (moment_strict M w ?x f)"
  have p: "fst (moment_strict M w ?x f) = None"
  proof (cases "fst (moment_strict M w ?x f)")
    case (Some t)
    then have "extractTimestampPrefix_loop M w s f len = (Some t, trimStart (drop (nat len) s), ?w)"
      using ge by (subst extractTimestampPrefix_loop.simps) simp
    with "1.prems"(1) show ?thesis by simp
  qed simp
  have u: "extractTimestampPrefix_loop M w s f len = extractTimestampPrefix_loop M ?w s f (len - 1)"
    using ge p by (subst extractTimestampPrefix_loop.simps) simp
  show ?case
  proof (cases "k = len")
    case True
    then show ?thesis using p by (simp add: moment_strict_def)
  next
    case False
    then have k: "k \<le> len - 1" using "1.prems"(3) by simp
    have sh: "Suc (cpos w + nat (len - 1 - k)) = cpos w + nat (len - k)" using k by simp
    have "moment_parse M (clock ?w (cpos ?w + nat (len - 1 - k))) (trim (take (nat k) s)) f = None"
      using "1.prems"(1) u by (intro "1.IH" [OF ge p _ "1.prems"(2) k]) simp
    then show ?thesis by (simp add: moment_strict_def sh)
  qed
qed

lemma extractTimestampPrefix_independent:
  assumes "clock_independent M f r"
  shows "fst (extractTimestampPrefix M w1 r f) = fst (extractTimestampPrefix M w2 r f)"
    and "fst (snd (extractTimestampPrefix M w1 r f)) = fst (snd (extractTimestampPrefix M w2 r f))"
    and "timestamp_parses M f r \<Longrightarrow> fst (extractTimestampPrefix M w1 r f) \<noteq> None"
proof -
  let ?hi = "min (formatLength f + 5) (int (length r))"
  have ci: "moment_parse M c (trim (take (nat k) r)) f = moment_parse M c' (trim (take (nat k) r)) f"
    if "formatLength f - 2 \<le> k" "k \<le> ?hi" for c c' k
    using assms that unfolding clock_independent_def by blast
  from extractTimestampPrefix_loop_independent [of f ?hi M r w1 w2, OF ci]
  show "fst (extractTimestampPrefix M w1 r f) = fst (extractTimestampPrefix M w2 r f)"
    and "fst (snd (extractTimestampPrefix M w1 r f)) = fst (snd (extractTimestampPrefix M w2 r f))"
    by (simp_all add: extractTimestampPrefix_def)
  show "fst (extractTimestampPrefix M w1 r f) \<noteq> None" if "timestamp_parses M f r"
  proof
    assume n: "fst (extractTimestampPrefix M w1 r f) = None"
    from that obtain c k where k: "formatLength f - 2 \<le> k" "k \<le> ?hi"
      and p: "moment_parse M c (trim (take (nat k) r)) f \<noteq> None"
      unfolding timestamp_parses_def by blast
    have "moment_parse M (clock w1 (cpos w1 + nat (?hi - k))) (trim (take (nat k) r)) f = None"
      using n k by (intro extractTimestampPrefix_loop_failed) (simp_all add: extractTimestampPrefix_def)
    with p ci [OF k, of c "clock w1 (cpos w1 + nat (?hi - k))"] show False by simp
  qed
qed

lemma finalizeEntry_same_entry:
  "rel_option (same_entry M f) (fst (finalizeEntry M rb f d1 w1)) (fst (finalizeEntry M rb f d2 w2))"
proof (cases "fe_emits rb")
  case False
  then have "fst (finalizeEntry M rb f d1 w1) = None" "fst (finalizeEntry M rb f d2 w2) = None"
    by (simp_all add: finalizeEntry_fst_None)
  then show ?thesis by simp
next
  case True
  then obtain e1 e2 where e: "fst (finalizeEntry M rb f d1 w1) = Some e1"
      "fst (finalizeEntry M rb f d2 w2) = Some e2"
    using finalizeEntry_fst_None [of M rb f d1 w1] finalizeEntry_fst_None [of M rb f d2 w2] by auto
  note a = finalizeEntry_fst_Some [OF e(1)] and b = finalizeEntry_fst_Some [OF e(2)]
  let ?r = "fe_rawWithPrefix rb"
  have always: "rawWithPrefix e1 = rawWithPrefix e2" "idMissing e1 = idMissing e2"
    "\<not> idMissing e1 \<longrightarrow> entry_id e1 = entry_id e2"
    using a(2,4,5) b(2,4,5) by (auto split: option.splits)
  have stable: "raw e1 = raw e2 \<and> (timestamp_parses M f ?r \<longrightarrow> createdAt e1 = createdAt e2)"
    if ci: "clock_independent M f ?r"
  proof -
    note x = extractTimestampPrefix_independent [OF ci]
    have "raw e1 = raw e2" using a(3) b(3) x(2) [of w1 w2] by simp
    moreover have "createdAt e1 = createdAt e2" if "timestamp_parses M f ?r"
    proof -
      from x(3) [OF that, of w1] obtain t where t: "fst (extractTimestampPrefix M w1 ?r f) = Some t"
        by auto
      then have "fst (extractTimestampPrefix M w2 ?r f) = Some t" using x(1) [of w1 w2] by simp
      with t a(6) b(6) show ?thesis by simp
    qed
    ultimately show ?thesis by blast
  qed
  have "same_entry M f e1 e2"
    unfolding same_entry_def using always stable a(2) by simp
  then show ?thesis by (simp add: e)
qed

lemma same_doc_push_finalize:
  assumes "same_doc M f d1 d2"
  shows "same_doc M f
       (push_entry a (fst (finalizeEntry M rb f d1 w1)) (fst (snd (finalizeEntry M rb f d1 w1))))
       (push_entry a (fst (finalizeEntry M rb f d2 w2)) (fst (snd (finalizeEntry M rb f d2 w2))))"
  using assms finalizeEntry_same_entry [of M f rb d1 w1 d2 w2]
  by (cases "fst (finalizeEntry M rb f d1 w1)"; cases "fst (finalizeEntry M rb f d2 w2)")
     (auto simp: same_doc_def push_entry_def finalizeEntry_doc list_all2_appendI)

lemma same_doc_finalize_current:
  "same_run M f s1 s2 \<Longrightarrow>
     same_doc M f (result (finalize_current M f a s1)) (result (finalize_current M f a s2))"
  by (auto simp: same_run_def finalize_current_def case_prod_beta Let_def same_doc_push_finalize
      split: option.splits)

lemma same_doc_update [simp]:
  "same_doc M f (d1\<lparr>frontmatter := x\<rparr>) (d2\<lparr>frontmatter := x\<rparr>)
     \<longleftrightarrow> archiveStartOffset d1 = archiveStartOffset d2 \<and>
         list_all2 (same_entry M f) (entries d1) (entries d2) \<and>
         list_all2 (same_entry M f) (archiveEntries d1) (archiveEntries d2)"
  "same_doc M f (d1\<lparr>archiveStartOffset := y\<rparr>) (d2\<lparr>archiveStartOffset := y\<rparr>)
     \<longleftrightarrow> frontmatter d1 = frontmatter d2 \<and>
         list_all2 (same_entry M f) (entries d1) (entries d2) \<and>
         list_all2 (same_entry M f) (archiveEntries d1) (archiveEntries d2)"
  by (auto simp: same_doc_def)

lemma same_run_process_line:
  assumes "same_run M f s1 s2"
  shows "same_run M f (process_line M f s1 line) (process_line M f s2 line)"
proof -
  have eq: "lineOffset s2 = lineOffset s1" "inFrontmatter s2 = inFrontmatter s1"
    "frontmatterStarted s2 = frontmatterStarted s1" "frontmatterContent s2 = frontmatterContent s1"
    "inArchive s2 = inArchive s1" "currentEntry s2 = currentEntry s1"
    using assms by (simp_all add: same_run_def)
  have d: "same_doc M f (result s1) (result s2)"
    using assms by (simp add: same_run_def)
  have fc: "same_doc M f (result (finalize_current M f a s1)) (result (finalize_current M f a s2))" for a
    by (rule same_doc_finalize_current [OF assms])
  show ?thesis
    unfolding process_line_def Let_def eq
    using d fc [of False] fc [of "inArchive s1"]
    by (simp add: same_run_def eq same_doc_def split: option.split)
qed

lemma same_run_foldl:
  "same_run M f s1 s2 \<Longrightarrow>
     same_run M f (foldl (process_line M f) s1 ls) (foldl (process_line M f) s2 ls)"
  by (induction ls arbitrary: s1 s2) (simp_all add: same_run_process_line)

lemma parseMomentsDoc_same_doc:
  "same_doc M f (fst (parseMomentsDoc M w1 s f)) (fst (parseMomentsDoc M w2 s f))"
proof -
  have "same_run M f (initial_state w1 s) (initial_state w2 s)"
    by (simp add: same_run_def same_doc_def initial_state_def)
  then have r: "same_run M f (foldl (process_line M f) (initial_state w1 s) (split_nl s))
      (foldl (process_line M f) (initial_state w2 s) (split_nl s))"
    by (rule same_run_foldl)
  then have "inArchive (foldl (process_line M f) (initial_state w2 s) (split_nl s))
      = inArchive (foldl (process_line M f) (initial_state w1 s) (split_nl s))"
    by (simp add: same_run_def)
  then show ?thesis
    using same_doc_finalize_current [OF r]
    by (simp add: parseMomentsDoc_def Let_def)
qed

text \<open>
  C5, as stated, fails: an entry without a marker gets a new random id at every parse.
  Here the same text is parsed twice in a row.
\<close>

theorem reparse_new_id_counterexample:
  "map entry_id (entries (fst (parseMomentsDoc demo_moment demo_world ''- hello'' demo_format))) = [''m-012345''] \<and>
   map entry_id (entries (fst (parseMomentsDoc demo_moment
       (snd (parseMomentsDoc demo_moment demo_world ''- hello'' demo_format)) ''- hello'' demo_format))) = [''m-6789ab'']"
  by code_simp

text \<open>
  C5, amended: two parses of one text, whatever the random draws and the clock, give
  \<open>entries\<close> and \<open>archiveEntries\<close> of the same length and in the same order, entry by entry
  with the same \<open>rawWithPrefix\<close> and \<open>idMissing\<close> and the same id when the block carries a
  marker; the frontmatter and \<open>archiveStartOffset\<close> are the same too.  \<open>raw\<close> is the same
  for every entry for which the strict parse of the prefixes tried (the trimmed prefixes of
  \<open>rawWithPrefix\<close> of the lengths \<open>n - 2\<close> to \<open>min (n + 5) (length rawWithPrefix)\<close>, \<open>n\<close>
  the length of the format without its bracketed literals) does not depend on the instant
  at which \<open>moment\<close> is called, as it is with a format that gives the year, the month and
  the day; \<open>createdAt\<close> is the same for such an entry if one of these prefixes parses.
  With a format that leaves a unit to the current date, such as \<open>HH:mm\<close>, \<open>createdAt\<close> can
  differ between two parses, and so can \<open>raw\<close> when the day decides whether a prefix is
  valid.
\<close>

theorem reparse_agrees:
  "list_all2 (same_entry M f) (entries (fst (parseMomentsDoc M w1 s f)))
     (entries (fst (parseMomentsDoc M w2 s f))) \<and>
   list_all2 (same_entry M f) (archiveEntries (fst (parseMomentsDoc M w1 s f)))
     (archiveEntries (fst (parseMomentsDoc M w2 s f))) \<and>
   frontmatter (fst (parseMomentsDoc M w1 s f)) = frontmatter (fst (parseMomentsDoc M w2 s f)) \<and>
   archiveStartOffset (fst (parseMomentsDoc M w1 s f)) = archiveStartOffset (fst (parseMomentsDoc M w2 s f))"
  using parseMomentsDoc_same_doc [of M f w1 s w2] by (simp add: same_doc_def)

text \<open>
  Why the amended statement asks that the parse does not depend on the instant of the
  call: with the format \<open>HH:mm\<close>, the same text parsed on two days gives two instants.
\<close>

lemma reparse_next_day_example:
  "map createdAt (entries (fst (parseMomentsDoc hm_moment demo_world ''- 09:15 x ^m-abc123'' ''HH:mm'')))
     = [1767345300000] \<and>
   map createdAt (entries (fst (parseMomentsDoc hm_moment next_day_world ''- 09:15 x ^m-abc123'' ''HH:mm'')))
     = [1767431700000] \<and>
   map raw (entries (fst (parseMomentsDoc hm_moment demo_world ''- 09:15 x ^m-abc123'' ''HH:mm'')))
     = [''x'']"
  by code_simp

text \<open>
  C5, witness: the two parses of the text with two entries differ in the id and the
  \<open>createdAt\<close> of the first entry and agree on both for the second, which has a marker
  and a timestamp in a format that gives every unit of the date.
\<close>

theorem reparse_agrees_witness:
  "map entry_id (entries (fst (parseMomentsDoc demo_moment demo_world two_entries_text demo_format)))
     = [''m-012345'', ''m-abc123''] \<and>
   map entry_id (entries (fst (parseMomentsDoc demo_moment later_world two_entries_text demo_format)))
     = [''m-789abc'', ''m-abc123''] \<and>
   map createdAt (entries (fst (parseMomentsDoc demo_moment demo_world two_entries_text demo_format)))
     = [1767349260000, 1767345300000] \<and>
   map createdAt (entries (fst (parseMomentsDoc demo_moment later_world two_entries_text demo_format)))
     = [1767352860000, 1767345300000] \<and>
   map rawWithPrefix (entries (fst (parseMomentsDoc demo_moment demo_world two_entries_text demo_format)))
     = [''hello'', ''2026-01-02 09:15 x''] \<and>
   clock_independent demo_moment demo_format ''2026-01-02 09:15 x'' \<and>
   timestamp_parses demo_moment demo_format ''2026-01-02 09:15 x'' \<and>
   same_entry demo_moment demo_format
     (entries (fst (parseMomentsDoc demo_moment demo_world two_entries_text demo_format)) ! 1)
     (entries (fst (parseMomentsDoc demo_moment later_world two_entries_text demo_format)) ! 1) \<and>
   raw (entries (fst (parseMomentsDoc demo_moment demo_world two_entries_text demo_format)) ! 1)
     = raw (entries (fst (parseMomentsDoc demo_moment later_world two_entries_text demo_format)) ! 1) \<and>
   createdAt (entries (fst (parseMomentsDoc demo_moment demo_world two_entries_text demo_format)) ! 1)
     = createdAt (entries (fst (parseMomentsDoc demo_moment later_world two_entries_text demo_format)) ! 1)"
proof -
  let ?a = "entries (fst (parseMomentsDoc demo_moment demo_world two_entries_text demo_format))"
  let ?b = "entries (fst (parseMomentsDoc demo_moment later_world two_entries_text demo_format))"
  have ids: "map entry_id ?a = [''m-012345'', ''m-abc123'']" "map entry_id ?b = [''m-789abc'', ''m-abc123'']"
    by code_simp+
  have ts: "map createdAt ?a = [1767349260000, 1767345300000]"
    "map createdAt ?b = [1767352860000, 1767345300000]"
    by code_simp+
  have rw: "map rawWithPrefix ?a = [''hello'', ''2026-01-02 09:15 x'']"
    by code_simp
  have len: "length ?a = 2" using ids(1) by (metis length_map length_Cons list.size(3) Suc_1 One_nat_def)
  have r1: "rawWithPrefix (?a ! 1) = ''2026-01-02 09:15 x''"
    by code_simp
  have ci: "clock_independent demo_moment demo_format ''2026-01-02 09:15 x''"
    by (simp add: clock_independent_def demo_moment_def)
  have fl: "formatLength demo_format = 16" by code_simp
  have "moment_parse demo_moment 0 (trim (take (nat 17) ''2026-01-02 09:15 x'')) demo_format \<noteq> None"
    by code_simp
  then have tp: "timestamp_parses demo_moment demo_format ''2026-01-02 09:15 x''"
    unfolding timestamp_parses_def
    by (intro exI [of _ 0] exI [of _ 17]) (simp add: fl)
  from reparse_agrees [of demo_moment demo_format demo_world two_entries_text later_world]
  have "list_all2 (same_entry demo_moment demo_format) ?a ?b" by simp
  then have se: "same_entry demo_moment demo_format (?a ! 1) (?b ! 1)"
    using len by (simp add: list_all2_nthD)
  have imp: "clock_independent demo_moment demo_format (rawWithPrefix (?a ! 1)) \<longrightarrow>
        raw (?a ! 1) = raw (?b ! 1) \<and>
        (timestamp_parses demo_moment demo_format (rawWithPrefix (?a ! 1))
           \<longrightarrow> createdAt (?a ! 1) = createdAt (?b ! 1))"
    using se unfolding same_entry_def by (elim conjE)
  have eq: "raw (?a ! 1) = raw (?b ! 1)" "createdAt (?a ! 1) = createdAt (?b ! 1)"
    using imp ci tp unfolding r1 by blast+
  from ids ts rw ci tp se eq show ?thesis by (intro conjI)
qed

section \<open>C2: entry ids and the keys of \<open>spans\<close>\<close>



text \<open>The random source and the clock stay the same while the positions move on.\<close>

lemma same_source_refl [simp]: "same_source w w"
  by (simp add: same_source_def)


lemma randomString_snd [simp]: "snd (randomString w n) = w\<lparr>rpos := rpos w + n\<rparr>"
  by (induction n arbitrary: w) (simp_all add: case_prod_beta Let_def)










lemma entry_count_update [simp]:
  "entry_count (d\<lparr>frontmatter := x\<rparr>) = entry_count d"
  "entry_count (d\<lparr>archiveStartOffset := y\<rparr>) = entry_count d"
  by (simp_all add: entry_count_def)




lemma ids_update [simp]:
  "keys_ok (d\<lparr>frontmatter := x\<rparr>) = keys_ok d"
  "keys_ok (d\<lparr>archiveStartOffset := y\<rparr>) = keys_ok d"
  "gen_distinct (d\<lparr>frontmatter := x\<rparr>) = gen_distinct d"
  "gen_distinct (d\<lparr>archiveStartOffset := y\<rparr>) = gen_distinct d"
  by (simp_all add: keys_ok_def all_ids_def gen_distinct_def)

lemma wld_process_line:
  "wld (process_line M f st line) = wld st \<or>
   wld (process_line M f st line) = wld (finalize_current M f False st) \<or>
   wld (process_line M f st line) = wld (finalize_current M f (inArchive st) st)"
  by (simp add: process_line_def Let_def split: option.split)

















text \<open>
  Why the amended statement has its two conditions.  A marker can repeat an id that was
  generated for an earlier block.  And when the random source is stuck, all 100 candidates
  of \<open>generateBlockId\<close> are the same, and its fallback (the clock in base 36 and three
  more draws) is returned without a look at the ids to avoid: here it is one of them.
\<close>

lemma marker_repeats_generated_id_example:
  "map entry_id (entries (fst (parseMomentsDoc demo_moment demo_world
       (join_nl [''- hello'', ''- x ^m-012345'']) demo_format)))
     = [''m-012345'', ''m-012345'']"
  by code_simp

lemma CHARS_0: "CHARS ! 0 = CHR ''0''"
  by (simp add: CHARS_def)

lemma stuck_randomString:
  "rand w = (\<lambda>k. 0) \<Longrightarrow> fst (randomString w n) = replicate n (CHR ''0'')"
  by (induction n arbitrary: w) (simp_all add: case_prod_beta Let_def CHARS_0)

lemma stuck_loop:
  "rand w = (\<lambda>k. 0) \<Longrightarrow> ''m-000000'' \<in> S \<Longrightarrow>
     generateBlockId_loop k w (Some S) = (None, w\<lparr>rpos := rpos w + 6 * k\<rparr>)"
proof (induction k arbitrary: w)
  case (Suc k)
  have "replicate 6 (CHR ''0'') = ''000000''" by (simp add: numeral_eq_Suc)
  then have "BLOCK_ID_PREFIX @ fst (randomString w 6) = ''m-000000''"
    using Suc.prems(1) by (simp add: stuck_randomString BLOCK_ID_PREFIX_def)
  then show ?case
    using Suc.prems Suc.IH [of "w\<lparr>rpos := rpos w + 6\<rparr>"]
    by (simp add: case_prod_beta Let_def add.assoc)
qed simp

lemma toString36_clock: "toString36 1767349260000 = ''mjwq48o0''"
  by (simp add: toString36_def CHARS_def)

lemma fallback_collision_example:
  "fst (generateBlockId stuck_world (Some {''m-000000'', ''m-mjwq48o0000''})) = ''m-mjwq48o0000''"
proof -
  let ?w = "stuck_world\<lparr>rpos := rpos stuck_world + 6 * 100\<rparr>"
  have l: "generateBlockId_loop 100 stuck_world (Some {''m-000000'', ''m-mjwq48o0000''}) = (None, ?w)"
    by (rule stuck_loop) (simp_all add: stuck_world_def)
  have r: "replicate 3 (CHR ''0'') = ''000''" by (simp add: numeral_eq_Suc)
  have "fst (randomString (snd (now ?w)) 3) = ''000''"
    unfolding r [symmetric] by (rule stuck_randomString) (simp add: now_def stuck_world_def)
  moreover have "fst (now ?w) = 1767349260000"
    by (simp add: now_def stuck_world_def)
  ultimately show ?thesis
    unfolding generateBlockId_def l
    by (simp add: case_prod_beta Let_def toString36_clock BLOCK_ID_PREFIX_def del: randomString.simps)
qed



section \<open>C1: spans and the text\<close>

lemma flags_after_Nil [simp]:
  "flags_after [] = \<lparr>fl_started = False, fl_inFm = False, fl_inArchive = False\<rparr>"
  by (simp add: flags_after_def)

lemma flags_after_snoc: "flags_after (xs @ [l]) = flags_step (flags_after xs) l"
  by (simp add: flags_after_def)

lemma kept_lines_append:
  "kept_lines fl (xs @ ys) = kept_lines fl xs @ kept_lines (foldl flags_step fl xs) ys"
  by (induction xs arbitrary: fl) simp_all

lemma heading_not_separator: "ARCHIVE_HEADING \<noteq> ARCHIVE_SEPARATOR"
  by (simp add: ARCHIVE_HEADING_def ARCHIVE_SEPARATOR_def)

lemma consumed_keeps_archive:
  "consumed fl l \<Longrightarrow> fl_inArchive (flags_step fl l) = fl_inArchive fl"
  by (auto simp: consumed_def flags_step_def heading_not_separator)

lemma kept_lines_all:
  "\<not> fl_inFm fl \<Longrightarrow>
   (\<And>l. l \<in> set src \<Longrightarrow> \<not> FRONTMATTER_REGEX l \<and> trim l \<noteq> ARCHIVE_SEPARATOR \<and>
          \<not> (fl_inArchive fl \<and> trim l = ARCHIVE_HEADING))
   \<Longrightarrow> kept_lines fl src = src"
proof (induction src arbitrary: fl)
  case (Cons l ls)
  have a: "\<not> consumed fl l" using Cons.prems by (simp add: consumed_def)
  have b: "flags_step fl l = fl" using Cons.prems by (simp add: flags_step_def)
  show ?case using a b Cons by simp
qed simp

text \<open>The scanner's flags are those of \<open>flags_step\<close>.\<close>

lemma process_line_flags:
  "frontmatterStarted (process_line M f st line)
     = fl_started (flags_step \<lparr>fl_started = frontmatterStarted st, fl_inFm = inFrontmatter st,
                               fl_inArchive = inArchive st\<rparr> line)"
  "inFrontmatter (process_line M f st line)
     = fl_inFm (flags_step \<lparr>fl_started = frontmatterStarted st, fl_inFm = inFrontmatter st,
                            fl_inArchive = inArchive st\<rparr> line)"
  "inArchive (process_line M f st line)
     = fl_inArchive (flags_step \<lparr>fl_started = frontmatterStarted st, fl_inFm = inFrontmatter st,
                                 fl_inArchive = inArchive st\<rparr> line)"
  "lineOffset (process_line M f st line) = lineOffset st + length line + 1"
  by (simp_all add: process_line_def flags_step_def Let_def split: option.split)

text \<open>Located blocks and their list.\<close>

lemma loc_ok_mono: "loc_ok M f ls x \<Longrightarrow> loc_ok M f (ls @ ms) x"
proof -
  assume a: "loc_ok M f ls x"
  then obtain q where "ls = loc_before x @ loc_lines x @ q"
    unfolding loc_ok_def by blast
  then have "ls @ ms = loc_before x @ loc_lines x @ (q @ ms)" by simp
  then show ?thesis using a unfolding loc_ok_def by blast
qed

lemma loc_end_lt:
  assumes "loc_ok M f ls x"
  shows "span_end (loc_span x) < offset_of ls"
proof -
  from assms obtain q where ls: "ls = loc_before x @ loc_lines x @ q" and ne: "loc_lines x \<noteq> []"
    unfolding loc_ok_def by blast
  have "length (join_nl (loc_lines x)) + 1 = offset_of (loc_lines x)"
    using ne by (rule length_join_nl)
  then show ?thesis by (simp add: loc_span_def ls)
qed

lemma log_ok_cong:
  "log_ok M f ls d lg \<Longrightarrow> entries d' = entries d \<Longrightarrow> archiveEntries d' = archiveEntries d \<Longrightarrow>
     spans d' = spans d \<Longrightarrow> log_ok M f ls d' lg"
  by (simp add: log_ok_def)

lemma log_ok_mono: "log_ok M f ls d lg \<Longrightarrow> log_ok M f (ls @ ms) d lg"
  by (simp add: log_ok_def loc_ok_mono)

lemma log_ok_finalize:
  assumes lg: "log_ok M f ls d lg" and cur: "cur_ok ls cur"
    and before: "\<forall>x \<in> set lg. span_end (loc_span x) < startOffset cur"
    and arch: "a \<longrightarrow> fl_inArchive (flags_after ls)"
  shows "\<exists>lg'. log_ok M f ls
           (push_entry a (fst (finalizeEntry M cur f d w)) (fst (snd (finalizeEntry M cur f d w)))) lg'"
    (is "\<exists>lg'. log_ok M f ls ?d' lg'")
proof (cases "fst (finalizeEntry M cur f d w)")
  case None
  then have "entries ?d' = entries d" "archiveEntries ?d' = archiveEntries d" "spans ?d' = spans d"
    by (simp_all add: push_entry_def finalizeEntry_doc)
  from log_ok_cong [OF lg this] show ?thesis ..
next
  case (Some e)
  from cur obtain p src q where h: "ls = p @ src @ q" "src \<noteq> []" "LIST_ITEM_REGEX (hd src)"
    "\<not> consumed (flags_after p) (hd src)"
    "cur = \<lparr>lines = block_lines (kept_lines (flags_after p) src),
            startOffset = offset_of p, endOffset = offset_of p + length (join_nl src)\<rparr>"
    "fl_inArchive (flags_after ls) = fl_inArchive (flags_after p)"
    unfolding cur_ok_def by blast
  define x where "x = \<lparr>loc_before = p, loc_lines = src, loc_archived = a, loc_entry = e\<rparr>"
  have blk: "loc_block x = cur" by (simp add: loc_block_def x_def h(5))
  have spn: "loc_span x = \<lparr>span_id = entry_id e, span_start = startOffset cur, span_end = endOffset cur\<rparr>"
    by (simp add: loc_span_def x_def h(5))
  have okx: "loc_ok M f ls x"
    unfolding loc_ok_def blk
    using h(1-4,6) arch Some by (auto simp: x_def)
  have en: "entries ?d' = (if a then entries d else entries d @ [e])"
    and ar: "archiveEntries ?d' = (if a then archiveEntries d @ [e] else archiveEntries d)"
    and sp: "spans ?d' = AList.update (entry_id e) (loc_span x) (spans d)"
    using Some by (simp_all add: push_entry_def finalizeEntry_doc spn)
  have l1: "entries d = map loc_entry (filter (\<lambda>x. \<not> loc_archived x) lg)"
    and l2: "archiveEntries d = map loc_entry (filter loc_archived lg)"
    and l3: "\<forall>y \<in> set lg. loc_ok M f ls y"
    and l4: "sorted_wrt (\<lambda>x y. span_end (loc_span x) < span_start (loc_span y)) lg"
    and l5: "\<And>k. map_of (spans d) k
        = map_option loc_span (find (\<lambda>x. entry_id (loc_entry x) = k) (rev lg))"
    using lg by (simp_all add: log_ok_def)
  have "log_ok M f ls ?d' (lg @ [x])"
    unfolding log_ok_def
  proof (intro conjI allI)
    show "entries ?d' = map loc_entry (filter (\<lambda>x. \<not> loc_archived x) (lg @ [x]))"
      by (simp add: en l1 x_def)
    show "archiveEntries ?d' = map loc_entry (filter loc_archived (lg @ [x]))"
      by (simp add: ar l2 x_def)
    show "\<forall>y \<in> set (lg @ [x]). loc_ok M f ls y"
      using l3 okx by simp
    show "sorted_wrt (\<lambda>x y. span_end (loc_span x) < span_start (loc_span y)) (lg @ [x])"
      using l4 before by (simp add: sorted_wrt_append spn)
    fix k
    show "map_of (spans ?d') k
        = map_option loc_span (find (\<lambda>x. entry_id (loc_entry x) = k) (rev (lg @ [x])))"
      by (simp add: sp update_conv' l5 x_def)
  qed
  then show ?thesis ..
qed

text \<open>The block in progress, line by line.\<close>

lemma cur_ok_skip:
  assumes "cur_ok ls cur" and c: "consumed (flags_after ls) line"
  shows "cur_ok (ls @ [line]) cur"
proof -
  from assms(1) obtain p src q where h: "ls = p @ src @ q" "src \<noteq> []" "LIST_ITEM_REGEX (hd src)"
    "\<not> consumed (flags_after p) (hd src)"
    "cur = \<lparr>lines = block_lines (kept_lines (flags_after p) src),
            startOffset = offset_of p, endOffset = offset_of p + length (join_nl src)\<rparr>"
    "kept_lines (flags_after (p @ src)) q = []"
    "fl_inArchive (flags_after ls) = fl_inArchive (flags_after p)"
    unfolding cur_ok_def by blast
  have fq: "foldl flags_step (flags_after (p @ src)) q = flags_after ls"
    unfolding h(1) by (simp add: flags_after_def)
  have k: "kept_lines (flags_after (p @ src)) (q @ [line]) = []"
    using h(6) c by (simp add: kept_lines_append fq)
  have a: "fl_inArchive (flags_after (ls @ [line])) = fl_inArchive (flags_after p)"
    using consumed_keeps_archive [OF c] h(7) by (simp add: flags_after_snoc)
  have "ls @ [line] = p @ src @ (q @ [line])" using h(1) by simp
  then show ?thesis
    unfolding cur_ok_def using h(2-5) k a by blast
qed

lemma cur_ok_start:
  assumes "LIST_ITEM_REGEX line" "\<not> consumed (flags_after pre) line" "trim line \<noteq> ARCHIVE_SEPARATOR"
  shows "cur_ok (pre @ [line])
           \<lparr>lines = [drop 2 line], startOffset = offset_of pre, endOffset = offset_of pre + length line\<rparr>"
proof -
  have "\<not> fl_inFm (flags_after pre)" using assms(2) by (simp add: consumed_def)
  then have "fl_inArchive (flags_step (flags_after pre) line) = fl_inArchive (flags_after pre)"
    using assms(2,3) by (auto simp: flags_step_def consumed_def)
  then have a: "fl_inArchive (flags_after (pre @ [line])) = fl_inArchive (flags_after pre)"
    by (simp add: flags_after_snoc)
  have "pre @ [line] = pre @ [line] @ []" by simp
  then show ?thesis
    unfolding cur_ok_def using assms(1,2) a
    by (intro exI [of _ pre] exI [of _ "[line]"] exI [of _ "[]"]) (simp add: block_lines_def)
qed

lemma cur_ok_continue:
  assumes "cur_ok ls cur" and c: "\<not> consumed (flags_after ls) line"
    and s: "trim line \<noteq> ARCHIVE_SEPARATOR"
  shows "cur_ok (ls @ [line])
           (cur\<lparr>lines := lines cur @ [if startsWith line ''  '' then drop 2 line else line],
                endOffset := offset_of ls + length line\<rparr>)"
proof -
  from assms(1) obtain p src q where h: "ls = p @ src @ q" "src \<noteq> []" "LIST_ITEM_REGEX (hd src)"
    "\<not> consumed (flags_after p) (hd src)"
    "cur = \<lparr>lines = block_lines (kept_lines (flags_after p) src),
            startOffset = offset_of p, endOffset = offset_of p + length (join_nl src)\<rparr>"
    "kept_lines (flags_after (p @ src)) q = []"
    "fl_inArchive (flags_after ls) = fl_inArchive (flags_after p)"
    unfolding cur_ok_def by blast
  let ?src = "src @ q @ [line]"
  have f1: "foldl flags_step (flags_after p) src = flags_after (p @ src)"
    by (simp add: flags_after_def)
  have f2: "foldl flags_step (flags_after (p @ src)) q = flags_after ls"
    unfolding h(1) by (simp add: flags_after_def)
  have k: "kept_lines (flags_after p) ?src = kept_lines (flags_after p) src @ [line]"
    using kept_lines_append [of "flags_after p" "src @ q" "[line]"]
      kept_lines_append [of "flags_after p" src q] h(6) c
    by (simp add: f1 f2)
  have ne: "kept_lines (flags_after p) src \<noteq> []"
    using h(2,4) by (cases src) simp_all
  have ln: "lines cur @ [if startsWith line ''  '' then drop 2 line else line]
      = block_lines (kept_lines (flags_after p) ?src)"
    unfolding k using ne by (simp add: block_lines_snoc h(5))
  have len: "offset_of ls + length line = offset_of p + length (join_nl ?src)"
    using length_join_nl [of ?src] h(1) by simp
  have "\<not> fl_inFm (flags_after ls)" using c by (simp add: consumed_def)
  then have "fl_inArchive (flags_step (flags_after ls) line) = fl_inArchive (flags_after ls)"
    using c s by (auto simp: flags_step_def consumed_def)
  then have a: "fl_inArchive (flags_after (ls @ [line])) = fl_inArchive (flags_after p)"
    using h(7) by (simp add: flags_after_snoc)
  have hd: "hd ?src = hd src" using h(2) by simp
  have "ls @ [line] = p @ ?src @ []" using h(1) by simp
  moreover have "cur\<lparr>lines := lines cur @ [if startsWith line ''  '' then drop 2 line else line],
                endOffset := offset_of ls + length line\<rparr>
      = \<lparr>lines = block_lines (kept_lines (flags_after p) ?src),
         startOffset = offset_of p, endOffset = offset_of p + length (join_nl ?src)\<rparr>"
    using ln len by (simp add: h(5))
  ultimately show ?thesis
    unfolding cur_ok_def using h(2,3,4) a hd
    by (intro exI [of _ p] exI [of _ ?src] exI [of _ "[]"]) simp
qed

text \<open>The invariant of the scan.\<close>

lemma scan_inv_finalize_current:
  assumes inv: "scan_inv M f pre st" and arch: "a \<longrightarrow> inArchive st"
  shows "\<exists>lg. log_ok M f pre (result (finalize_current M f a st)) lg"
proof -
  from inv obtain lg where lg: "log_ok M f pre (result st) lg"
    and cur0: "\<And>cur. currentEntry st = Some cur \<Longrightarrow>
        cur_ok pre cur \<and> (\<forall>x \<in> set lg. span_end (loc_span x) < startOffset cur)"
    and ia: "inArchive st = fl_inArchive (flags_after pre)"
    unfolding scan_inv_def by blast
  show ?thesis
  proof (cases "currentEntry st")
    case None
    then show ?thesis using lg by (auto simp: finalize_current_result)
  next
    case (Some cur)
    have "a \<longrightarrow> fl_inArchive (flags_after pre)" using arch ia by simp
    from log_ok_finalize [OF lg _ _ this, of cur "wld st"] cur0 [OF Some]
    show ?thesis by (simp add: finalize_current_result Some)
  qed
qed

lemma scan_inv_process_line:
  assumes inv: "scan_inv M f pre st"
  shows "scan_inv M f (pre @ [line]) (process_line M f st line)"
proof -
  let ?st' = "process_line M f st line"
  let ?fl = "flags_after pre"
  have off0: "lineOffset st = offset_of pre"
    and fs: "frontmatterStarted st = fl_started ?fl" "inFrontmatter st = fl_inFm ?fl"
      "inArchive st = fl_inArchive ?fl"
    using inv by (simp_all add: scan_inv_def)
  from inv obtain lg where lg: "log_ok M f pre (result st) lg"
    and cur0: "\<And>cur. currentEntry st = Some cur \<Longrightarrow>
        cur_ok pre cur \<and> (\<forall>x \<in> set lg. span_end (loc_span x) < startOffset cur)"
    unfolding scan_inv_def by blast
  have fleq: "\<lparr>fl_started = frontmatterStarted st, fl_inFm = inFrontmatter st,
               fl_inArchive = inArchive st\<rparr> = ?fl"
    by (simp add: fs)
  have flags: "frontmatterStarted ?st' = fl_started (flags_after (pre @ [line]))"
    "inFrontmatter ?st' = fl_inFm (flags_after (pre @ [line]))"
    "inArchive ?st' = fl_inArchive (flags_after (pre @ [line]))"
    by (simp_all only: process_line_flags fleq flags_after_snoc)
  have off: "lineOffset ?st' = offset_of (pre @ [line])"
    by (simp add: process_line_flags off0)
  note fin = scan_inv_finalize_current [OF inv]
  have same: "\<exists>lg'. log_ok M f (pre @ [line]) (result ?st') lg' \<and>
      (\<forall>cur. currentEntry ?st' = Some cur \<longrightarrow>
         cur_ok (pre @ [line]) cur \<and> (\<forall>x \<in> set lg'. span_end (loc_span x) < startOffset cur))"
    if c: "currentEntry ?st' = currentEntry st"
      and r: "entries (result ?st') = entries (result st)"
        "archiveEntries (result ?st') = archiveEntries (result st)"
        "spans (result ?st') = spans (result st)"
      and k: "consumed ?fl line"
  proof -
    have "log_ok M f (pre @ [line]) (result ?st') lg"
      using log_ok_mono [OF log_ok_cong [OF lg r]] .
    moreover have "cur_ok (pre @ [line]) cur \<and> (\<forall>x \<in> set lg. span_end (loc_span x) < startOffset cur)"
      if "currentEntry ?st' = Some cur" for cur
      using cur0 [of cur] that c cur_ok_skip [OF _ k, of cur] by simp
    ultimately show ?thesis by blast
  qed
  have ended: "\<exists>lg'. log_ok M f (pre @ [line]) (result ?st') lg' \<and>
      (\<forall>cur. currentEntry ?st' = Some cur \<longrightarrow>
         cur_ok (pre @ [line]) cur \<and> (\<forall>x \<in> set lg'. span_end (loc_span x) < startOffset cur))"
    if c: "currentEntry ?st' = None"
      and r: "entries (result ?st') = entries (result (finalize_current M f a st))"
        "archiveEntries (result ?st') = archiveEntries (result (finalize_current M f a st))"
        "spans (result ?st') = spans (result (finalize_current M f a st))"
      and a: "a \<longrightarrow> inArchive st" for a
  proof -
    from fin [OF a] obtain lg' where "log_ok M f pre (result (finalize_current M f a st)) lg'" ..
    from log_ok_mono [OF log_ok_cong [OF this r]]
    have "log_ok M f (pre @ [line]) (result ?st') lg'" .
    then show ?thesis using c by auto
  qed
  consider
      (fm) "FRONTMATTER_REGEX line \<and> (\<not> frontmatterStarted st \<or> inFrontmatter st)"
    | (infm) "\<not> (FRONTMATTER_REGEX line \<and> (\<not> frontmatterStarted st \<or> inFrontmatter st))" "inFrontmatter st"
    | (sep) "\<not> (FRONTMATTER_REGEX line \<and> (\<not> frontmatterStarted st \<or> inFrontmatter st))" "\<not> inFrontmatter st"
        "trim line = ARCHIVE_SEPARATOR"
    | (heading) "\<not> (FRONTMATTER_REGEX line \<and> (\<not> frontmatterStarted st \<or> inFrontmatter st))" "\<not> inFrontmatter st"
        "trim line \<noteq> ARCHIVE_SEPARATOR" "inArchive st \<and> trim line = ARCHIVE_HEADING"
    | (item) "\<not> (FRONTMATTER_REGEX line \<and> (\<not> frontmatterStarted st \<or> inFrontmatter st))" "\<not> inFrontmatter st"
        "trim line \<noteq> ARCHIVE_SEPARATOR" "\<not> (inArchive st \<and> trim line = ARCHIVE_HEADING)"
        "LIST_ITEM_REGEX line"
    | (other) "\<not> (FRONTMATTER_REGEX line \<and> (\<not> frontmatterStarted st \<or> inFrontmatter st))" "\<not> inFrontmatter st"
        "trim line \<noteq> ARCHIVE_SEPARATOR" "\<not> (inArchive st \<and> trim line = ARCHIVE_HEADING)"
        "\<not> LIST_ITEM_REGEX line"
    by blast
  then have "\<exists>lg'. log_ok M f (pre @ [line]) (result ?st') lg' \<and>
      (\<forall>cur. currentEntry ?st' = Some cur \<longrightarrow>
         cur_ok (pre @ [line]) cur \<and> (\<forall>x \<in> set lg'. span_end (loc_span x) < startOffset cur))"
  proof cases
    case fm
    then have "consumed ?fl line" by (auto simp: consumed_def fs [symmetric])
    moreover from fm have "currentEntry ?st' = currentEntry st"
      "entries (result ?st') = entries (result st)"
      "archiveEntries (result ?st') = archiveEntries (result st)"
      "spans (result ?st') = spans (result st)"
      by (auto simp: process_line_def Let_def)
    ultimately show ?thesis by (intro same)
  next
    case infm
    then have "consumed ?fl line" by (auto simp: consumed_def fs [symmetric])
    moreover from infm have "currentEntry ?st' = currentEntry st"
      "entries (result ?st') = entries (result st)"
      "archiveEntries (result ?st') = archiveEntries (result st)"
      "spans (result ?st') = spans (result st)"
      by (auto simp: process_line_def Let_def)
    ultimately show ?thesis by (intro same)
  next
    case heading
    then have "consumed ?fl line" by (auto simp: consumed_def fs [symmetric])
    moreover from heading have "currentEntry ?st' = currentEntry st"
      "entries (result ?st') = entries (result st)"
      "archiveEntries (result ?st') = archiveEntries (result st)"
      "spans (result ?st') = spans (result st)"
      by (auto simp: process_line_def Let_def)
    ultimately show ?thesis by (intro same)
  next
    case sep
    then have "currentEntry ?st' = None"
      "entries (result ?st') = entries (result (finalize_current M f False st))"
      "archiveEntries (result ?st') = archiveEntries (result (finalize_current M f False st))"
      "spans (result ?st') = spans (result (finalize_current M f False st))"
      by (auto simp: process_line_def Let_def)
    then show ?thesis by (intro ended [of False]) simp_all
  next
    case item
    then have nc: "\<not> consumed ?fl line" by (auto simp: consumed_def fs [symmetric])
    from item have c: "currentEntry ?st' =
        Some \<lparr>lines = [drop 2 line], startOffset = offset_of pre, endOffset = offset_of pre + length line\<rparr>"
      and r: "result ?st' = result (finalize_current M f (inArchive st) st)"
      by (auto simp: process_line_def Let_def off0)
    from fin [of "inArchive st"] obtain lg'
      where l: "log_ok M f pre (result (finalize_current M f (inArchive st) st)) lg'" by auto
    then have "\<forall>x \<in> set lg'. span_end (loc_span x) < offset_of pre"
      by (auto simp: log_ok_def intro: loc_end_lt)
    moreover have "log_ok M f (pre @ [line]) (result ?st') lg'"
      unfolding r using l by (rule log_ok_mono)
    ultimately show ?thesis
      using c cur_ok_start [OF item(5) nc item(3), of ] by auto
  next
    case other
    then have nc: "\<not> consumed ?fl line" by (auto simp: consumed_def fs [symmetric])
    show ?thesis
    proof (cases "currentEntry st")
      case None
      with other have "currentEntry ?st' = None" "result ?st' = result st"
        by (auto simp: process_line_def Let_def)
      then show ?thesis using log_ok_mono [OF lg, of "[line]"] by auto
    next
      case (Some cur)
      show ?thesis
      proof (cases "startsWith line ''  '' \<or> trim line = []")
        case True
        with other Some have c: "currentEntry ?st' =
            Some (cur\<lparr>lines := lines cur @ [if startsWith line ''  '' then drop 2 line else line],
                      endOffset := offset_of pre + length line\<rparr>)"
          and r: "result ?st' = result st"
          by (auto simp: process_line_def Let_def off0)
        from cur_ok_continue [OF _ nc other(3), of cur] cur0 [OF Some]
        show ?thesis
          using c r log_ok_mono [OF lg, of "[line]"] by auto
      next
        case False
        with other Some have "currentEntry ?st' = None"
          "entries (result ?st') = entries (result (finalize_current M f (inArchive st) st))"
          "archiveEntries (result ?st') = archiveEntries (result (finalize_current M f (inArchive st) st))"
          "spans (result ?st') = spans (result (finalize_current M f (inArchive st) st))"
          by (auto simp: process_line_def Let_def)
        then show ?thesis by (intro ended [of "inArchive st"]) simp_all
      qed
    qed
  qed
  then show ?thesis
    unfolding scan_inv_def using off flags by blast
qed

lemma scan_inv_foldl:
  "scan_inv M f pre st \<Longrightarrow> scan_inv M f (pre @ ls) (foldl (process_line M f) st ls)"
proof (induction ls arbitrary: pre st)
  case (Cons l ls)
  from Cons.IH [OF scan_inv_process_line [OF Cons.prems, of l]] show ?case by simp
qed simp

lemma parseMomentsDoc_log:
  "\<exists>lg. log_ok M f (split_nl s) (fst (parseMomentsDoc M w s f)) lg"
proof -
  have "log_ok M f [] (result (initial_state w s)) []"
    by (simp add: log_ok_def initial_state_def)
  then have "scan_inv M f [] (initial_state w s)"
    unfolding scan_inv_def by (auto simp: initial_state_def)
  from scan_inv_foldl [OF this, of "split_nl s"]
  have i: "scan_inv M f (split_nl s) (foldl (process_line M f) (initial_state w s) (split_nl s))"
    by simp
  from scan_inv_finalize_current [OF i, of "inArchive (foldl (process_line M f) (initial_state w s) (split_nl s))"]
  show ?thesis
    by (simp add: parseMomentsDoc_def Let_def)
qed

lemma located_text:
  assumes "loc_ok M f (split_nl s) x"
  shows "span_end (loc_span x) \<le> length s"
    and "substring s (span_start (loc_span x)) (span_end (loc_span x)) = join_nl (loc_lines x)"
    and "substring s (span_start (loc_span x)) (span_end (loc_span x) + 1)
           = join_nl (loc_lines x) @ (if span_end (loc_span x) < length s then [NL] else [])"
proof -
  from assms obtain q where sp: "split_nl s = loc_before x @ loc_lines x @ q"
    and ne: "loc_lines x \<noteq> []"
    unfolding loc_ok_def by blast
  have s: "s = join_nl (loc_before x @ loc_lines x @ q)"
    using join_split_nl [of s] sp by simp
  have len: "length s = offset_of (loc_before x) + length (join_nl (loc_lines x)) + offset_of q"
    unfolding s by (rule length_text [OF ne])
  show "span_end (loc_span x) \<le> length s"
    by (simp add: loc_span_def len)
  show "substring s (span_start (loc_span x)) (span_end (loc_span x)) = join_nl (loc_lines x)"
    using substring_block(1) [OF ne, of "loc_before x" q] by (simp add: loc_span_def s [symmetric])
  have "span_end (loc_span x) < length s \<longleftrightarrow> q \<noteq> []"
    by (simp add: loc_span_def len)
  then show "substring s (span_start (loc_span x)) (span_end (loc_span x) + 1)
           = join_nl (loc_lines x) @ (if span_end (loc_span x) < length s then [NL] else [])"
    using substring_block(2) [OF ne, of "loc_before x" q] by (simp add: loc_span_def s [symmetric])
qed

lemma located_lines:
  assumes "loc_ok M f ls x"
    and "\<forall>l \<in> set (loc_lines x). \<not> FRONTMATTER_REGEX l \<and> trim l \<noteq> ARCHIVE_SEPARATOR \<and>
           \<not> (fl_inArchive (flags_after (loc_before x)) \<and> trim l = ARCHIVE_HEADING)"
  shows "lines (loc_block x) = block_lines (loc_lines x)"
proof -
  have "\<not> fl_inFm (flags_after (loc_before x))"
    using assms(1) by (simp add: loc_ok_def consumed_def)
  then have "kept_lines (flags_after (loc_before x)) (loc_lines x) = loc_lines x"
    using assms(2) by (intro kept_lines_all) simp_all
  then show ?thesis by (simp add: loc_block_def)
qed

text \<open>
  C1, as stated, fails: \<open>span.end\<close> is not the offset of the block's last character but
  the offset after it, where the line feed stands, and \<open>substring(span.start, span.end + 1)\<close>
  is the block followed by that line feed.
\<close>

theorem span_end_counterexample:
  "map_of (spans (fst (parseMomentsDoc demo_moment demo_world
       (join_nl [''- a ^m-aaa111'', ''- b ^m-bbb222'']) demo_format))) ''m-aaa111''
     = Some \<lparr>span_id = ''m-aaa111'', span_start = 0, span_end = 13\<rparr> \<and>
   join_nl [''- a ^m-aaa111'', ''- b ^m-bbb222''] ! 13 = NL \<and>
   substring (join_nl [''- a ^m-aaa111'', ''- b ^m-bbb222'']) 0 (13 + 1) = ''- a ^m-aaa111'' @ [NL]"
  by code_simp

text \<open>
  C1, amended.  The text is a sequence of lines; the entries of a parsed document come,
  one by one and in the order of the text, from blocks \<open>x\<close> of consecutive lines
  (\<open>loc_lines x\<close>, after the lines \<open>loc_before x\<close>) that do not overlap: \<open>entries\<close> are
  the entries of the blocks that went to the active list, \<open>archiveEntries\<close> those of the
  others, and a block is archived only if an archive separator came before it.  Under
  every id \<open>spans\<close> holds the span of the last block whose entry has this id, and nothing
  under an id of no entry.  The span of a block starts where its first line starts, a line
  that begins with the list marker, and \<open>span.end\<close> is the offset after the last character
  of its last line: where the line feed of that line stands, or the length of the text.
  \<open>substring(span.start, span.end)\<close> is exactly the lines of the block joined by line
  feeds, prefixes and marker line included, and \<open>substring(span.start, span.end + 1)\<close> is
  that and the line feed, when the text goes on.  The entry of a block is what
  \<open>finalizeEntry\<close> makes of these lines, with the list marker cut from the first and two
  spaces from every indented one, and with the offsets of the span; left out are the lines
  that the scanner consumes before it looks at the block: the delimiters of a frontmatter
  that opens inside the block with what they enclose, and, for a block after an archive
  separator, the lines that trim to the archive heading.  A block with no frontmatter
  delimiter, no separator and (after a separator) no heading among its lines is finalized
  from all of its lines.
\<close>

theorem span_exactness:
  "\<exists>lg.
     entries (fst (parseMomentsDoc M w s f)) = map loc_entry (filter (\<lambda>x. \<not> loc_archived x) lg) \<and>
     archiveEntries (fst (parseMomentsDoc M w s f)) = map loc_entry (filter loc_archived lg) \<and>
     (\<forall>k. map_of (spans (fst (parseMomentsDoc M w s f))) k
        = map_option loc_span (find (\<lambda>x. entry_id (loc_entry x) = k) (rev lg))) \<and>
     sorted_wrt (\<lambda>x y. span_end (loc_span x) < span_start (loc_span y)) lg \<and>
     (\<forall>x \<in> set lg.
        (\<exists>q. split_nl s = loc_before x @ loc_lines x @ q) \<and>
        loc_lines x \<noteq> [] \<and> LIST_ITEM_REGEX (hd (loc_lines x)) \<and>
        \<not> consumed (flags_after (loc_before x)) (hd (loc_lines x)) \<and>
        span_end (loc_span x) \<le> length s \<and>
        substring s (span_start (loc_span x)) (span_end (loc_span x)) = join_nl (loc_lines x) \<and>
        substring s (span_start (loc_span x)) (span_end (loc_span x) + 1)
          = join_nl (loc_lines x) @ (if span_end (loc_span x) < length s then [NL] else []) \<and>
        (\<exists>d0 w0. fst (finalizeEntry M (loc_block x) f d0 w0) = Some (loc_entry x)) \<and>
        ((\<forall>l \<in> set (loc_lines x). \<not> FRONTMATTER_REGEX l \<and> trim l \<noteq> ARCHIVE_SEPARATOR \<and>
             \<not> (fl_inArchive (flags_after (loc_before x)) \<and> trim l = ARCHIVE_HEADING))
           \<longrightarrow> lines (loc_block x) = block_lines (loc_lines x)) \<and>
        (loc_archived x \<longrightarrow> fl_inArchive (flags_after (loc_before x))))"
proof -
  from parseMomentsDoc_log [of M f s w] obtain lg
    where lg: "log_ok M f (split_nl s) (fst (parseMomentsDoc M w s f)) lg" ..
  have each: "(\<exists>q. split_nl s = loc_before x @ loc_lines x @ q) \<and>
        loc_lines x \<noteq> [] \<and> LIST_ITEM_REGEX (hd (loc_lines x)) \<and>
        \<not> consumed (flags_after (loc_before x)) (hd (loc_lines x)) \<and>
        span_end (loc_span x) \<le> length s \<and>
        substring s (span_start (loc_span x)) (span_end (loc_span x)) = join_nl (loc_lines x) \<and>
        substring s (span_start (loc_span x)) (span_end (loc_span x) + 1)
          = join_nl (loc_lines x) @ (if span_end (loc_span x) < length s then [NL] else []) \<and>
        (\<exists>d0 w0. fst (finalizeEntry M (loc_block x) f d0 w0) = Some (loc_entry x)) \<and>
        ((\<forall>l \<in> set (loc_lines x). \<not> FRONTMATTER_REGEX l \<and> trim l \<noteq> ARCHIVE_SEPARATOR \<and>
             \<not> (fl_inArchive (flags_after (loc_before x)) \<and> trim l = ARCHIVE_HEADING))
           \<longrightarrow> lines (loc_block x) = block_lines (loc_lines x)) \<and>
        (loc_archived x \<longrightarrow> fl_inArchive (flags_after (loc_before x)))"
    if "x \<in> set lg" for x
  proof -
    have ok: "loc_ok M f (split_nl s) x" using lg that by (simp add: log_ok_def)
    note t = located_text [OF ok] and l = located_lines [OF ok]
    show ?thesis
      using ok t l unfolding loc_ok_def by (intro conjI impI) blast+
  qed
  show ?thesis
    using lg each unfolding log_ok_def
    by (intro exI [of _ lg] conjI ballI) blast+
qed

text \<open>
  C1, witness: the theorem at the text of two one-line blocks.  The span registered under
  \<open>m-aaa111\<close> is 0 to 13, so it is the span of a block of the theorem, whose lines are the
  13 characters from 0 and whose finalization gives an entry with this id.  In a text in
  which both blocks carry the marker \<open>m-aaa111\<close>, the span is that of the second block.
\<close>

theorem span_exactness_witness:
  "map_of (spans (fst (parseMomentsDoc demo_moment demo_world two_blocks_text demo_format))) ''m-aaa111''
     = Some \<lparr>span_id = ''m-aaa111'', span_start = 0, span_end = 13\<rparr> \<and>
   substring two_blocks_text 0 13 = ''- a ^m-aaa111'' \<and>
   (\<exists>x. loc_span x = \<lparr>span_id = ''m-aaa111'', span_start = 0, span_end = 13\<rparr> \<and>
        entry_id (loc_entry x) = ''m-aaa111'' \<and>
        join_nl (loc_lines x) = ''- a ^m-aaa111'' \<and>
        (\<exists>q. split_nl two_blocks_text = loc_before x @ loc_lines x @ q) \<and>
        (\<exists>d0 w0. fst (finalizeEntry demo_moment (loc_block x) demo_format d0 w0) = Some (loc_entry x))) \<and>
   map_of (spans (fst (parseMomentsDoc demo_moment demo_world
       (join_nl [''- a ^m-aaa111'', ''- b ^m-aaa111'']) demo_format))) ''m-aaa111''
     = Some \<lparr>span_id = ''m-aaa111'', span_start = 14, span_end = 27\<rparr>"
proof -
  let ?d = "fst (parseMomentsDoc demo_moment demo_world two_blocks_text demo_format)"
  have m: "map_of (spans ?d) ''m-aaa111'' = Some \<lparr>span_id = ''m-aaa111'', span_start = 0, span_end = 13\<rparr>"
    by code_simp
  have t: "substring two_blocks_text 0 13 = ''- a ^m-aaa111''"
    by code_simp
  have dup: "map_of (spans (fst (parseMomentsDoc demo_moment demo_world
       (join_nl [''- a ^m-aaa111'', ''- b ^m-aaa111'']) demo_format))) ''m-aaa111''
     = Some \<lparr>span_id = ''m-aaa111'', span_start = 14, span_end = 27\<rparr>"
    by code_simp
  from span_exactness [of demo_moment demo_world two_blocks_text demo_format]
  obtain lg where sp: "\<And>k. map_of (spans ?d) k
        = map_option loc_span (find (\<lambda>x. entry_id (loc_entry x) = k) (rev lg))"
    and each: "\<And>x. x \<in> set lg \<Longrightarrow>
        (\<exists>q. split_nl two_blocks_text = loc_before x @ loc_lines x @ q) \<and>
        substring two_blocks_text (span_start (loc_span x)) (span_end (loc_span x)) = join_nl (loc_lines x) \<and>
        (\<exists>d0 w0. fst (finalizeEntry demo_moment (loc_block x) demo_format d0 w0) = Some (loc_entry x))"
    by blast
  from sp [of "''m-aaa111''"] m
  have "map_option loc_span (find (\<lambda>x. entry_id (loc_entry x) = ''m-aaa111'') (rev lg))
      = Some \<lparr>span_id = ''m-aaa111'', span_start = 0, span_end = 13\<rparr>"
    by simp
  then obtain x
    where f: "find (\<lambda>x. entry_id (loc_entry x) = ''m-aaa111'') (rev lg) = Some x"
      and s: "loc_span x = \<lparr>span_id = ''m-aaa111'', span_start = 0, span_end = 13\<rparr>"
    by (auto simp: map_option_eq_Some)
  from f obtain n where "n < length (rev lg)" "rev lg ! n = x" "entry_id (loc_entry x) = ''m-aaa111''"
    unfolding find_Some_iff by blast
  then have i: "entry_id (loc_entry x) = ''m-aaa111''" and x: "x \<in> set lg"
    using nth_mem [of n "rev lg"] by simp_all
  from each [OF x] s t have "join_nl (loc_lines x) = ''- a ^m-aaa111''"
    by simp
  with each [OF x] s i have "\<exists>x. loc_span x = \<lparr>span_id = ''m-aaa111'', span_start = 0, span_end = 13\<rparr> \<and>
        entry_id (loc_entry x) = ''m-aaa111'' \<and>
        join_nl (loc_lines x) = ''- a ^m-aaa111'' \<and>
        (\<exists>q. split_nl two_blocks_text = loc_before x @ loc_lines x @ q) \<and>
        (\<exists>d0 w0. fst (finalizeEntry demo_moment (loc_block x) demo_format d0 w0) = Some (loc_entry x))"
    by blast
  with m t dup show ?thesis by (intro conjI)
qed

end
